theory Spec2Isabelle
  imports
    Complex_Main
    "HOL-Library.AList"
    "HOL-Library.Sublist"
    "HOL-Library.List_Lexorder"
    "HOL-Library.Char_ord"
    "HOL-Library.Product_Lexorder"
begin

section \<open>JavaScript values\<close>

text \<open>
  The values the storage layer handles are JSON-like JavaScript values. An object is an
  association list in insertion order; a property that is absent (or \<open>undefined\<close>) is
  \<open>None\<close> of type \<open>jsval option\<close>. A \<open>Date\<close> is rendered by its epoch
  milliseconds. \<open>JNaN\<close> is the number \<open>NaN\<close>, which arithmetic on a missing
  property produces.
\<close>

datatype jsval =
    JNull
  | JBool bool
  | JNum int
  | JNaN
  | JStr string
  | JArr "jsval list"
  | JObj "(string \<times> jsval) list"

text \<open>Truthiness, as \<open>if (x)\<close>, \<open>x ? a : b\<close> and \<open>x || y\<close> read it.\<close>

fun truthy :: "jsval \<Rightarrow> bool" where
  "truthy JNull = False"
| "truthy (JBool b) = b"
| "truthy (JNum n) = (n \<noteq> 0)"
| "truthy JNaN = False"
| "truthy (JStr s) = (s \<noteq> [])"
| "truthy (JArr xs) = True"
| "truthy (JObj kvs) = True"

definition truthy_opt :: "jsval option \<Rightarrow> bool" where
  "truthy_opt x = (case x of None \<Rightarrow> False | Some v \<Rightarrow> truthy v)"

text \<open>\<open>typeof x === 'object'\<close>: true of objects, arrays and \<open>null\<close>.\<close>

fun typeof_object :: "jsval \<Rightarrow> bool" where
  "typeof_object JNull = True"
| "typeof_object (JArr xs) = True"
| "typeof_object (JObj kvs) = True"
| "typeof_object v = False"

fun isArray :: "jsval \<Rightarrow> bool" where
  "isArray (JArr xs) = True"
| "isArray v = False"

text \<open>Decimal rendering of numbers, as template literals and \<open>String(x)\<close> produce it.\<close>

fun string_of_nat :: "nat \<Rightarrow> string" where
  "string_of_nat n =
     (if n < 10 then [''0123456789'' ! n]
      else string_of_nat (n div 10) @ [''0123456789'' ! (n mod 10)])"

declare string_of_nat.simps [simp del]

definition string_of_int :: "int \<Rightarrow> string" where
  "string_of_int i =
     (if i < 0 then CHR ''-'' # string_of_nat (nat (- i)) else string_of_nat (nat i))"

fun join :: "string \<Rightarrow> string list \<Rightarrow> string" where
  "join sep [] = []"
| "join sep [x] = x"
| "join sep (x # y # ys) = x @ sep @ join sep (y # ys)"

fun js_to_string :: "jsval \<Rightarrow> string" where
  "js_to_string JNull = ''null''"
| "js_to_string (JBool b) = (if b then ''true'' else ''false'')"
| "js_to_string (JNum n) = string_of_int n"
| "js_to_string JNaN = ''NaN''"
| "js_to_string (JStr s) = s"
| "js_to_string (JArr xs) =
     join '','' (map (\<lambda>x. if x = JNull then [] else js_to_string x) xs)"
| "js_to_string (JObj kvs) = ''[object Object]''"

definition js_to_string_opt :: "jsval option \<Rightarrow> string" where
  "js_to_string_opt x = (case x of None \<Rightarrow> ''undefined'' | Some v \<Rightarrow> js_to_string v)"

text \<open>The own enumerable properties of a value: what \<open>{...x}\<close> copies and what
  \<open>k in x\<close> and \<open>x.k\<close> find for the keys the code uses.\<close>

fun own_props :: "jsval \<Rightarrow> (string \<times> jsval) list" where
  "own_props (JObj kvs) = kvs"
| "own_props (JArr xs) = zip (map string_of_nat [0 ..< length xs]) xs"
| "own_props v = []"

definition js_prop :: "jsval \<Rightarrow> string \<Rightarrow> jsval option" where
  "js_prop v k = map_of (own_props v) k"

definition has_prop :: "string \<Rightarrow> jsval \<Rightarrow> bool" where
  "has_prop k v = (js_prop v k \<noteq> None)"

text \<open>The object spread \<open>{...a, ...b}\<close>: the properties of \<open>a\<close>, then those of
  \<open>b\<close>, a later one replacing an earlier one of the same key in its place.\<close>

definition spread :: "(string \<times> jsval) list \<Rightarrow> (string \<times> jsval) list \<Rightarrow> (string \<times> jsval) list" where
  "spread a b = fold (\<lambda>(k, v). AList.update k v) b a"

text \<open>\<open>x + 1\<close> on a value read from a property.\<close>

fun js_plus_one :: "jsval option \<Rightarrow> jsval" where
  "js_plus_one None = JNaN"
| "js_plus_one (Some JNull) = JNum 1"
| "js_plus_one (Some (JBool b)) = JNum (if b then 2 else 1)"
| "js_plus_one (Some (JNum n)) = JNum (n + 1)"
| "js_plus_one (Some JNaN) = JNaN"
| "js_plus_one (Some v) = JStr (js_to_string v @ ''1'')"

text \<open>A number read where the declared type is \<open>number | undefined\<close>.\<close>

fun js_number :: "jsval option \<Rightarrow> int option" where
  "js_number (Some (JNum n)) = Some n"
| "js_number x = None"

section \<open>Errors and external primitives\<close>

datatype error =
    ValidationError
  | QuotaExceededError nat nat
  | EncryptionError
  | StorageError string
  | TypeError
  | SyntaxError
  | OtherError string

text \<open>
  The library primitives the services call: \<open>JSON.stringify\<close> and \<open>JSON.parse\<close>
  (\<open>None\<close> is a \<open>SyntaxError\<close>), the byte compressors behind the compression
  service (pako and the native streams), the authenticated ciphers behind the encryption
  service (result: the \<open>EncryptedData\<close> object), and the number of bytes the backend
  accounts for one stored entry. Strings are byte strings; the base64 text encoding of
  compressed bytes is not modelled.
\<close>

datatype comp_algorithm = Gzip | Lz4 | Brotli

record prims =
  json_stringify :: "jsval \<Rightarrow> string"
  json_parse :: "string \<Rightarrow> jsval option"
  compress_bytes :: "comp_algorithm \<Rightarrow> nat \<Rightarrow> string \<Rightarrow> string"
  decompress_bytes :: "comp_algorithm \<Rightarrow> string \<Rightarrow> string option"
  crypto_seal :: "string \<Rightarrow> jsval"
  crypto_unseal :: "jsval \<Rightarrow> string option"
  backend_bytes :: "string \<Rightarrow> jsval \<Rightarrow> nat"

text \<open>\<open>estimateSize\<close> (AdvancedStorage and StorageCache): the byte length of the JSON text.\<close>

definition estimateSize :: "prims \<Rightarrow> jsval \<Rightarrow> nat" where
  "estimateSize P v = length (json_stringify P v)"

subsection \<open>CompressionService\<close>

record compression_service =
  cs_algorithm :: comp_algorithm
  cs_level :: nat
  cs_threshold :: nat

fun algorithm_name :: "comp_algorithm \<Rightarrow> string" where
  "algorithm_name Gzip = ''gzip''"
| "algorithm_name Lz4 = ''lz4''"
| "algorithm_name Brotli = ''brotli''"

definition compress :: "prims \<Rightarrow> compression_service \<Rightarrow> jsval \<Rightarrow> jsval" where
  "compress P cs data =
     (let serialized = json_stringify P data;
          originalSize = length serialized
      in if originalSize < cs_threshold cs
         then JObj [(''algorithm'', JStr ''none''), (''data'', JStr serialized),
                    (''originalSize'', JNum (int originalSize)),
                    (''compressedSize'', JNum (int originalSize))]
         else let compressed = compress_bytes P (cs_algorithm cs) (cs_level cs) serialized
              in JObj [(''algorithm'', JStr (algorithm_name (cs_algorithm cs))),
                       (''data'', JStr compressed),
                       (''originalSize'', JNum (int originalSize)),
                       (''compressedSize'', JNum (int (length compressed)))])"

definition parse_json :: "prims \<Rightarrow> string \<Rightarrow> error + jsval" where
  "parse_json P s = (case json_parse P s of None \<Rightarrow> Inl SyntaxError | Some v \<Rightarrow> Inr v)"

definition decompress_with :: "prims \<Rightarrow> comp_algorithm \<Rightarrow> string \<Rightarrow> error + jsval" where
  "decompress_with P alg bytes =
     (case decompress_bytes P alg bytes of
        None \<Rightarrow> Inl (OtherError ''incorrect data'')
      | Some decompressed \<Rightarrow> parse_json P decompressed)"

definition decompress :: "prims \<Rightarrow> jsval option \<Rightarrow> error + jsval" where
  "decompress P compressed =
     (case compressed of
        None \<Rightarrow> Inl TypeError
      | Some JNull \<Rightarrow> Inl TypeError
      | Some c \<Rightarrow>
          if js_prop c ''algorithm'' = Some (JStr ''none'')
          then (case js_prop c ''data'' of
                  None \<Rightarrow> Inl SyntaxError
                | Some d \<Rightarrow> parse_json P (js_to_string d))
          else (case js_prop c ''data'' of
                  Some (JStr bytes) \<Rightarrow>
                    if js_prop c ''algorithm'' = Some (JStr ''gzip'') then decompress_with P Gzip bytes
                    else if js_prop c ''algorithm'' = Some (JStr ''lz4'') then decompress_with P Lz4 bytes
                    else if js_prop c ''algorithm'' = Some (JStr ''brotli'') then decompress_with P Brotli bytes
                    else Inl (StorageError ''DECOMPRESSION_ERROR'')
                | _ \<Rightarrow> Inl (OtherError ''InvalidCharacterError'')))"

subsection \<open>EncryptionService\<close>

definition encrypt :: "prims \<Rightarrow> jsval \<Rightarrow> jsval" where
  "encrypt P data = crypto_seal P (json_stringify P data)"

definition decrypt :: "prims \<Rightarrow> jsval option \<Rightarrow> error + jsval" where
  "decrypt P encrypted =
     (case encrypted of
        None \<Rightarrow> Inl TypeError
      | Some JNull \<Rightarrow> Inl TypeError
      | Some e \<Rightarrow>
          (case crypto_unseal P e of
             None \<Rightarrow> Inl EncryptionError
           | Some decoded \<Rightarrow> parse_json P decoded))"

section \<open>The backend adapter\<close>

text \<open>
  The orchestrator talks to its backend through the \<open>StorageAdapter\<close> interface. The
  model is the store behind that interface as the in-memory adapter keeps it: an
  insertion-ordered map from keys to records (a value and an optional expiry time), read
  with the expiry check. Values are stored and returned by copy. The adapter's own
  capacity eviction and key-format validation are not part of the interface and are not
  modelled: the backend is taken to have room and to accept the key.
\<close>

type_synonym backend = "(string \<times> jsval \<times> int option) list"

definition expired_at :: "int \<Rightarrow> int option \<Rightarrow> bool" where
  "expired_at now e = (case e of None \<Rightarrow> False | Some t \<Rightarrow> t \<noteq> 0 \<and> now > t)"

definition adapter_get :: "int \<Rightarrow> string \<Rightarrow> backend \<Rightarrow> backend \<times> jsval option" where
  "adapter_get now k b =
     (case map_of b k of
        None \<Rightarrow> (b, None)
      | Some (v, e) \<Rightarrow>
          if expired_at now e then (AList.delete k b, None) else (b, Some v))"

definition ttl_expiry :: "int \<Rightarrow> int option \<Rightarrow> int option" where
  "ttl_expiry now ttl = (case ttl of None \<Rightarrow> None | Some t \<Rightarrow> if t \<noteq> 0 then Some (now + t) else None)"

definition adapter_set :: "int \<Rightarrow> string \<Rightarrow> jsval \<Rightarrow> int option \<Rightarrow> backend \<Rightarrow> backend" where
  "adapter_set now k v ttl b = AList.update k (v, ttl_expiry now ttl) b"

definition adapter_delete :: "string \<Rightarrow> backend \<Rightarrow> backend" where
  "adapter_delete k b = AList.delete k b"

definition adapter_keys :: "backend \<Rightarrow> string list" where
  "adapter_keys b = map fst b"

definition adapter_size :: "prims \<Rightarrow> backend \<Rightarrow> nat" where
  "adapter_size P b = sum_list (map (\<lambda>(k, v, e). backend_bytes P k v) b)"

section \<open>The cache (StorageCache)\<close>

datatype cache_strategy = Lru | Lfu | Fifo | Ttl

record cache_config =
  cc_strategy :: cache_strategy
  cc_maxSize :: nat
  cc_maxMemory :: nat
  cc_ttl :: int
  cc_updateAgeOnGet :: bool
  cc_updateAgeOnHas :: bool
  cc_allowStale :: bool

record cache_entry =
  ce_value :: jsval
  ce_size :: nat
  ce_frequency :: nat
  ce_createdAt :: int
  ce_accessedAt :: int
  ce_expiresAt :: "int option"

record cache_stats =
  hits :: nat
  misses :: nat
  st_size :: nat
  memoryUsage :: int
  evictions :: nat
  writes :: nat
  reads :: nat

text \<open>\<open>updateHitRate\<close>: the stored rate is always this function of the two counters.\<close>

definition hitRate :: "cache_stats \<Rightarrow> rat" where
  "hitRate st =
     (if hits st + misses st > 0 then of_nat (hits st) / of_nat (hits st + misses st) else 0)"

subsection \<open>The lru-cache package\<close>

text \<open>
  \<open>LRUCache\<close> is a dependency, not code of the repository. Its documented behaviour is
  modelled as far as StorageCache relies on it: entries in recency order (least recent
  first) with a size and a time to live; a read refreshes recency (and the age, under
  \<open>updateAgeOnGet\<close>) and drops a stale entry; a write replaces the key, refuses an
  entry larger than the byte budget, and evicts least recent entries to keep the entry
  count and the byte budget. The second component of each result counts the calls of the
  \<open>dispose\<close> callback.
\<close>

record lru_entry =
  le_value :: jsval
  le_size :: nat
  le_ttl :: int
  le_start :: int

type_synonym lru_items = "(string \<times> lru_entry) list"

definition lru_stale :: "int \<Rightarrow> lru_entry \<Rightarrow> bool" where
  "lru_stale now e = (le_ttl e \<noteq> 0 \<and> now - le_start e > le_ttl e)"

definition lru_get :: "cache_config \<Rightarrow> int \<Rightarrow> string \<Rightarrow> lru_items \<Rightarrow> lru_items \<times> nat \<times> jsval option" where
  "lru_get cc now k items =
     (case map_of items k of
        None \<Rightarrow> (items, 0, None)
      | Some e \<Rightarrow>
          if lru_stale now e
          then (AList.delete k items, 1, if cc_allowStale cc then Some (le_value e) else None)
          else (AList.delete k items @ [(k, if cc_updateAgeOnGet cc then e\<lparr>le_start := now\<rparr> else e)],
                0, Some (le_value e)))"

fun lru_make_room :: "nat \<Rightarrow> lru_items \<Rightarrow> lru_items \<times> nat" where
  "lru_make_room budget [] = ([], 0)"
| "lru_make_room budget (x # xs) =
     (if sum_list (map (\<lambda>(k, e). le_size e) (x # xs)) > budget
      then (case lru_make_room budget xs of (r, n) \<Rightarrow> (r, Suc n))
      else (x # xs, 0))"

definition lru_set :: "cache_config \<Rightarrow> int \<Rightarrow> string \<Rightarrow> jsval \<Rightarrow> int \<Rightarrow> nat \<Rightarrow> lru_items \<Rightarrow> lru_items \<times> nat" where
  "lru_set cc now k v ttl sz items =
     (if sz > cc_maxMemory cc
      then (AList.delete k items, if map_of items k = None then 0 else 1)
      else
        let old = map_of items k;
            items1 = AList.delete k items;
            overwritten = (case old of None \<Rightarrow> 0 | Some e \<Rightarrow> if le_value e = v then 0 else 1);
            (items2, n1) = (if old = None \<and> items1 \<noteq> [] \<and> length items1 \<ge> cc_maxSize cc
                            then (tl items1, 1) else (items1, 0));
            (items3, n2) = lru_make_room (cc_maxMemory cc - sz) items2
        in (items3 @ [(k, \<lparr>le_value = v, le_size = sz, le_ttl = ttl, le_start = now\<rparr>)],
            overwritten + n1 + n2))"

subsection \<open>StorageCache\<close>

text \<open>
  The three stores are the optional fields of the class. \<open>QuickLRU\<close> (the store of the
  frequency strategy) is a dependency as well; StorageCache evicts before it inserts, so
  the store never holds more than its capacity, and it is modelled as the
  insertion-ordered map it then is. The events StorageCache emits have no listener in
  the repository and are not modelled.
\<close>

record cache =
  c_config :: cache_config
  lruCache :: "lru_items option"
  quickCache :: "(string \<times> cache_entry) list option"
  fifoCache :: "(string \<times> cache_entry) list option"
  frequencyMap :: "(string \<times> nat) list"
  stats :: cache_stats


definition isExpired :: "int \<Rightarrow> cache_entry \<Rightarrow> bool" where
  "isExpired now entry = expired_at now (ce_expiresAt entry)"

definition cache_delete :: "string \<Rightarrow> cache \<Rightarrow> cache \<times> bool" where
  "cache_delete k c =
     (let (c1, deleted) =
        (if cc_strategy (c_config c) = Lru \<and> lruCache c \<noteq> None then
           (case lruCache c of
              None \<Rightarrow> (c, False)
            | Some items \<Rightarrow>
                let deleted = (map_of items k \<noteq> None); items' = AList.delete k items
                in (c\<lparr>lruCache := Some items',
                      stats := (stats c)\<lparr>evictions := evictions (stats c) + (if deleted then 1 else 0),
                                         st_size := length items'\<rparr>\<rparr>, deleted))
         else if cc_strategy (c_config c) = Lfu \<and> quickCache c \<noteq> None then
           (case quickCache c of
              None \<Rightarrow> (c, False)
            | Some q \<Rightarrow>
                (case map_of q k of
                   None \<Rightarrow> (c, False)
                 | Some entry \<Rightarrow>
                     (c\<lparr>quickCache := Some (AList.delete k q),
                        stats := (stats c)\<lparr>memoryUsage := memoryUsage (stats c) - int (ce_size entry),
                                           st_size := length (AList.delete k q)\<rparr>\<rparr>, True)))
         else if cc_strategy (c_config c) = Fifo \<and> fifoCache c \<noteq> None then
           (case fifoCache c of
              None \<Rightarrow> (c, False)
            | Some q \<Rightarrow>
                (case map_of q k of
                   None \<Rightarrow> (c, False)
                 | Some entry \<Rightarrow>
                     (c\<lparr>fifoCache := Some (AList.delete k q),
                        stats := (stats c)\<lparr>memoryUsage := memoryUsage (stats c) - int (ce_size entry),
                                           st_size := length (AList.delete k q)\<rparr>\<rparr>, True)))
         else (c, False))
      in (c1\<lparr>frequencyMap := AList.delete k (frequencyMap c1)\<rparr>, deleted))"

definition cache_clear :: "cache \<Rightarrow> cache" where
  "cache_clear c =
     (let c1 =
        (if cc_strategy (c_config c) = Lru \<and> lruCache c \<noteq> None then
           (case lruCache c of
              None \<Rightarrow> c
            | Some items \<Rightarrow>
                c\<lparr>lruCache := Some [],
                  stats := (stats c)\<lparr>evictions := evictions (stats c) + length items\<rparr>\<rparr>)
         else if cc_strategy (c_config c) = Lfu \<and> quickCache c \<noteq> None then c\<lparr>quickCache := Some []\<rparr>
         else if cc_strategy (c_config c) = Fifo \<and> fifoCache c \<noteq> None then c\<lparr>fifoCache := Some []\<rparr>
         else c)
      in c1\<lparr>frequencyMap := [], stats := (stats c1)\<lparr>st_size := 0, memoryUsage := 0\<rparr>\<rparr>)"

definition cache_keys :: "cache \<Rightarrow> string list" where
  "cache_keys c =
     (if cc_strategy (c_config c) = Lru \<and> lruCache c \<noteq> None then
        (case lruCache c of None \<Rightarrow> [] | Some items \<Rightarrow> map fst items)
      else if cc_strategy (c_config c) = Lfu \<and> quickCache c \<noteq> None then
        (case quickCache c of None \<Rightarrow> [] | Some q \<Rightarrow> map fst q)
      else if cc_strategy (c_config c) = Fifo \<and> fifoCache c \<noteq> None then
        (case fifoCache c of None \<Rightarrow> [] | Some q \<Rightarrow> map fst q)
      else [])"

text \<open>\<open>evictLFU\<close>: the scan for the least frequency keeps the first entry that is
  strictly below the minimum so far (\<open>None\<close> is \<open>Infinity\<close>).\<close>

fun lfu_scan :: "(string \<times> cache_entry) list \<Rightarrow> nat option \<Rightarrow> string option \<Rightarrow> string option" where
  "lfu_scan [] minFreq evictKey = evictKey"
| "lfu_scan ((k, entry) # rest) minFreq evictKey =
     (if (case minFreq of None \<Rightarrow> True | Some m \<Rightarrow> ce_frequency entry < m)
      then lfu_scan rest (Some (ce_frequency entry)) (Some k)
      else lfu_scan rest minFreq evictKey)"

definition evictLFU :: "cache \<Rightarrow> cache" where
  "evictLFU c =
     (case quickCache c of
        None \<Rightarrow> c
      | Some q \<Rightarrow>
          (case lfu_scan q None None of
             None \<Rightarrow> c
           | Some evictKey \<Rightarrow> if evictKey \<noteq> [] then fst (cache_delete evictKey c) else c))"

definition evictFIFO :: "cache \<Rightarrow> cache" where
  "evictFIFO c =
     (case fifoCache c of
        None \<Rightarrow> c
      | Some q \<Rightarrow>
          (case q of
             [] \<Rightarrow> c
           | (firstKey, entry) # rest \<Rightarrow> if firstKey \<noteq> [] then fst (cache_delete firstKey c) else c))"

text \<open>
  \<open>evictByMemory\<close>. The score of the frequency strategy is frequency per byte, that of
  the insertion-order strategy the creation time; the first component of a score is set
  when the quotient is infinite (a size of zero). The scores are exact rationals, not
  floating-point numbers.
\<close>

type_synonym score = "bool \<times> rat"

definition lfu_score :: "cache_entry \<Rightarrow> score" where
  "lfu_score entry =
     (if ce_size entry = 0 then (True, 0)
      else (False, of_nat (ce_frequency entry) / of_nat (ce_size entry)))"

definition fifo_score :: "cache_entry \<Rightarrow> score" where
  "fifo_score entry = (False, of_int (ce_createdAt entry))"

fun evict_loop :: "nat \<Rightarrow> nat \<Rightarrow> (string \<times> nat \<times> score) list \<Rightarrow> cache \<Rightarrow> cache" where
  "evict_loop requiredSize freedSpace [] c = c"
| "evict_loop requiredSize freedSpace ((k, sz, sc) # es) c =
     (if freedSpace \<ge> requiredSize then c
      else evict_loop requiredSize (freedSpace + sz) es (fst (cache_delete k c)))"

definition evictByMemory :: "nat \<Rightarrow> cache \<Rightarrow> cache" where
  "evictByMemory requiredSize c =
     (let entries =
        (if cc_strategy (c_config c) = Lfu \<and> quickCache c \<noteq> None then
           (case quickCache c of
              None \<Rightarrow> []
            | Some q \<Rightarrow> map (\<lambda>(k, entry). (k, ce_size entry, lfu_score entry)) q)
         else if cc_strategy (c_config c) = Fifo \<and> fifoCache c \<noteq> None then
           (case fifoCache c of
              None \<Rightarrow> []
            | Some q \<Rightarrow> map (\<lambda>(k, entry). (k, ce_size entry, fifo_score entry)) q)
         else [])
      in evict_loop requiredSize 0 (sort_key (\<lambda>(k, sz, sc). sc) entries) c)"

definition enforceLimit :: "nat \<Rightarrow> cache \<Rightarrow> cache" where
  "enforceLimit requiredSize c =
     (let c1 =
        (if cc_strategy (c_config c) = Lfu \<and> quickCache c \<noteq> None
            \<and> (case quickCache c of None \<Rightarrow> False | Some q \<Rightarrow> length q \<ge> cc_maxSize (c_config c))
         then evictLFU c
         else if cc_strategy (c_config c) = Fifo \<and> fifoCache c \<noteq> None
            \<and> (case fifoCache c of None \<Rightarrow> False | Some q \<Rightarrow> length q \<ge> cc_maxSize (c_config c))
         then evictFIFO c
         else c)
      in if memoryUsage (stats c1) + int requiredSize > int (cc_maxMemory (c_config c1))
         then evictByMemory requiredSize c1 else c1)"

definition cache_get :: "int \<Rightarrow> string \<Rightarrow> cache \<Rightarrow> cache \<times> jsval option" where
  "cache_get now k c0 =
     (let c = c0\<lparr>stats := (stats c0)\<lparr>reads := reads (stats c0) + 1\<rparr>\<rparr>;
          miss = (c\<lparr>stats := (stats c)\<lparr>misses := misses (stats c) + 1\<rparr>\<rparr>, None)
      in if cc_strategy (c_config c) = Lru \<and> lruCache c \<noteq> None then
           (case lruCache c of
              None \<Rightarrow> miss
            | Some items \<Rightarrow>
                (case lru_get (c_config c) now k items of
                   (items', disposed, found) \<Rightarrow>
                     let c1 = c\<lparr>lruCache := Some items',
                                stats := (stats c)\<lparr>evictions := evictions (stats c) + disposed\<rparr>\<rparr>
                     in (case found of
                           Some v \<Rightarrow>
                             (c1\<lparr>stats := (stats c1)\<lparr>hits := hits (stats c1) + 1\<rparr>,
                                 frequencyMap :=
                                   AList.update k
                                     ((case map_of (frequencyMap c1) k of None \<Rightarrow> 0 | Some f \<Rightarrow> f) + 1)
                                     (frequencyMap c1)\<rparr>, Some v)
                         | None \<Rightarrow>
                             (c1\<lparr>stats := (stats c1)\<lparr>misses := misses (stats c1) + 1\<rparr>\<rparr>, None))))
         else if cc_strategy (c_config c) = Lfu \<and> quickCache c \<noteq> None then
           (case quickCache c of
              None \<Rightarrow> miss
            | Some q \<Rightarrow>
                (case map_of q k of
                   None \<Rightarrow> miss
                 | Some entry \<Rightarrow>
                     if \<not> isExpired now entry then
                       (c\<lparr>quickCache :=
                            Some (AList.update k
                                    (entry\<lparr>ce_frequency := ce_frequency entry + 1,
                                           ce_accessedAt := now\<rparr>) q),
                          frequencyMap := AList.update k (ce_frequency entry + 1) (frequencyMap c),
                          stats := (stats c)\<lparr>hits := hits (stats c) + 1\<rparr>\<rparr>,
                        Some (ce_value entry))
                     else miss))
         else if cc_strategy (c_config c) = Fifo \<and> fifoCache c \<noteq> None then
           (case fifoCache c of
              None \<Rightarrow> miss
            | Some q \<Rightarrow>
                (case map_of q k of
                   None \<Rightarrow> miss
                 | Some entry \<Rightarrow>
                     if \<not> isExpired now entry then
                       (c\<lparr>fifoCache := Some (AList.update k (entry\<lparr>ce_accessedAt := now\<rparr>) q),
                          stats := (stats c)\<lparr>hits := hits (stats c) + 1\<rparr>\<rparr>,
                        Some (ce_value entry))
                     else miss))
         else miss)"

definition truthy_ttl :: "int option \<Rightarrow> bool" where
  "truthy_ttl ttl = (case ttl of None \<Rightarrow> False | Some t \<Rightarrow> t \<noteq> 0)"

definition cache_set :: "prims \<Rightarrow> int \<Rightarrow> string \<Rightarrow> jsval \<Rightarrow> int option \<Rightarrow> cache \<Rightarrow> cache" where
  "cache_set P now k v ttl c0 =
     (let c = c0\<lparr>stats := (stats c0)\<lparr>writes := writes (stats c0) + 1\<rparr>\<rparr>;
          sz = estimateSize P v;
          expiresAt = (if truthy_ttl ttl then Some (now + the ttl)
                       else if cc_ttl (c_config c) \<noteq> 0 then Some (now + cc_ttl (c_config c))
                       else None);
          c3 =
            (if cc_strategy (c_config c) = Lru \<and> lruCache c \<noteq> None then
               (let c1 = (if memoryUsage (stats c) + int sz > int (cc_maxMemory (c_config c))
                          then evictByMemory sz c else c)
                in case lruCache c1 of
                     None \<Rightarrow> c1
                   | Some items \<Rightarrow>
                       (case lru_set (c_config c1) now k v
                               (if truthy_ttl ttl then the ttl else cc_ttl (c_config c1)) sz items of
                          (items', disposed) \<Rightarrow>
                            c1\<lparr>lruCache := Some items',
                               stats := (stats c1)\<lparr>evictions := evictions (stats c1) + disposed,
                                                   st_size := length items',
                                                   memoryUsage := memoryUsage (stats c1) + int sz\<rparr>\<rparr>))
             else
               (let entry = \<lparr>ce_value = v, ce_size = sz, ce_frequency = 1, ce_createdAt = now,
                             ce_accessedAt = now, ce_expiresAt = expiresAt\<rparr>;
                    c1 = enforceLimit sz c;
                    c2 =
                      (if cc_strategy (c_config c1) = Lfu \<and> quickCache c1 \<noteq> None then
                         (case quickCache c1 of
                            None \<Rightarrow> c1
                          | Some q \<Rightarrow>
                              c1\<lparr>quickCache := Some (AList.update k entry q),
                                 stats := (stats c1)\<lparr>st_size := length (AList.update k entry q)\<rparr>\<rparr>)
                       else if cc_strategy (c_config c1) = Fifo \<and> fifoCache c1 \<noteq> None then
                         (case fifoCache c1 of
                            None \<Rightarrow> c1
                          | Some q \<Rightarrow>
                              c1\<lparr>fifoCache := Some (AList.update k entry q),
                                 stats := (stats c1)\<lparr>st_size := length (AList.update k entry q)\<rparr>\<rparr>)
                       else c1)
                in c2\<lparr>stats := (stats c2)\<lparr>memoryUsage := memoryUsage (stats c2) + int sz\<rparr>\<rparr>))
      in c3\<lparr>frequencyMap := AList.update k 1 (frequencyMap c3)\<rparr>)"

section \<open>The synchronization manager: state and enqueueing\<close>

datatype change_kind = SetChange | DeleteChange | ClearChange

text \<open>A change's type with its value: a \<open>set\<close> change carries the value set.\<close>

datatype change_op = SetOp jsval | DeleteOp | ClearOp

fun kind_of :: "change_op \<Rightarrow> change_kind" where
  "kind_of (SetOp v) = SetChange"
| "kind_of DeleteOp = DeleteChange"
| "kind_of ClearOp = ClearChange"

record sync_change =
  sc_key :: string
  sc_op :: change_op
  sc_timestamp :: int
  sc_source :: string

datatype resolution = ResolvedLocal | ResolvedRemote | ResolvedMerged

record sync_conflict =
  cf_key :: string
  cf_localValue :: jsval
  cf_remoteValue :: jsval
  cf_localTimestamp :: int
  cf_remoteTimestamp :: int
  cf_resolution :: "resolution option"
  cf_mergedValue :: "jsval option"

record sync_result =
  sr_success :: bool
  sr_synced :: nat
  sr_conflicts :: "sync_conflict list"
  sr_errors :: "error list"

datatype conflict_policy = KeepLocal | TakeRemote | Merge | Manual

datatype sync_event =
    SyncStart
  | SyncComplete sync_result
  | ConflictEvent sync_conflict

record sync_manager =
  sy_enabled :: bool
  sy_conflictResolution :: conflict_policy
  sy_runtimeId :: string
  pendingChanges :: "(string \<times> sync_change) list"
  syncing :: bool
  lastSyncTime :: "int option"
  sy_emitted :: "sync_event list"

text \<open>
  A call of \<open>sync()\<close> runs in two parts. \<open>sync_begin\<close> is what the call does before it
  first waits: the re-entrancy guard, the flag and the \<open>sync-start\<close> event. The cycle
  itself (\<open>sync_cycle\<close>, below) runs when the call is resumed, and ends by clearing the
  flag.
\<close>

definition sync_begin :: "sync_manager \<Rightarrow> sync_manager" where
  "sync_begin sm =
     (if syncing sm \<or> \<not> sy_enabled sm then sm
      else sm\<lparr>syncing := True, sy_emitted := sy_emitted sm @ [SyncStart]\<rparr>)"

definition getSourceId :: "int \<Rightarrow> sync_manager \<Rightarrow> string" where
  "getSourceId now sm =
     (if sy_runtimeId sm = [] then ''unknown'' else sy_runtimeId sm) @ ''_'' @ string_of_int now"

definition queueChange :: "int \<Rightarrow> string \<Rightarrow> change_op \<Rightarrow> sync_manager \<Rightarrow> sync_manager" where
  "queueChange now k op sm =
     (let change = \<lparr>sc_key = k, sc_op = op, sc_timestamp = now, sc_source = getSourceId now sm\<rparr>;
          sm1 = sm\<lparr>pendingChanges := AList.update k change (pendingChanges sm)\<rparr>
      in if length (pendingChanges sm1) \<ge> 10 then sync_begin sm1 else sm1)"

text \<open>\<open>mergeValues\<close>. A \<open>Set\<close> identifies primitives by value and objects by identity.\<close>

fun is_primitive :: "jsval \<Rightarrow> bool" where
  "is_primitive (JArr xs) = False"
| "is_primitive (JObj kvs) = False"
| "is_primitive v = True"

fun set_add :: "jsval list \<Rightarrow> jsval \<Rightarrow> jsval list" where
  "set_add acc x = (if is_primitive x \<and> x \<in> set acc then acc else acc @ [x])"

definition mergeValues :: "jsval \<Rightarrow> jsval \<Rightarrow> jsval" where
  "mergeValues local remote =
     (if typeof_object local \<and> typeof_object remote
      then JObj (spread (spread [] (own_props remote)) (own_props local))
      else if isArray local \<and> isArray remote
      then (case (local, remote) of
              (JArr ls, JArr rs) \<Rightarrow> JArr (fold (\<lambda>x acc. set_add acc x) (ls @ rs) [])
            | _ \<Rightarrow> local)
      else local)"

fun combineResults :: "sync_result list \<Rightarrow> sync_result" where
  "combineResults results =
     \<lparr>sr_success = list_all sr_success results,
      sr_synced = sum_list (map sr_synced results),
      sr_conflicts = concat (map sr_conflicts results),
      sr_errors = concat (map sr_errors results)\<rparr>"

section \<open>The storage orchestrator (AdvancedStorage)\<close>

record config =
  namespace :: string
  encryption_enabled :: bool
  compression_enabled :: bool
  compression_algorithm :: comp_algorithm
  compression_threshold :: nat
  compression_level :: nat
  versioning_enabled :: bool
  versioning_maxVersions :: nat
  versioning_autoCleanup :: bool
  quota_maxSize :: nat
  quota_warnAt :: nat
  quota_enforceLimit :: bool

record set_options =
  o_ttl :: "int option"
  o_tags :: "jsval option"
  o_encrypt :: "bool option"
  o_compress :: "bool option"
  o_metadata :: "(string \<times> jsval) list option"

definition no_options :: set_options where
  "no_options = \<lparr>o_ttl = None, o_tags = None, o_encrypt = None, o_compress = None,
                  o_metadata = None\<rparr>"

text \<open>A registered schema, by what \<open>parseAsync\<close> does on a value: it returns the parsed
  data, throws a \<open>ZodError\<close>, or throws something else.\<close>

datatype schema_outcome = Parsed jsval | ZodError | Thrown error

type_synonym schema = "jsval \<Rightarrow> schema_outcome"

datatype storage_event =
    Change string change_kind "jsval option" "jsval option" int
  | ErrorEvent string error
  | QuotaWarning

text \<open>
  The state of one AdvancedStorage instance with its services. An absent cache or
  synchronization manager is \<open>None\<close>; the encryption and compression services exist
  exactly when the configuration enables them. Each operation runs from start to end
  without another one in between (the task queue's interleavings are not modelled), and
  the metrics collector is left out.
\<close>

record storage =
  s_adapter :: backend
  s_cache :: "cache option"
  s_schemas :: "(string \<times> schema) list"
  s_versionCounter :: "(string \<times> jsval) list"
  s_sync :: "sync_manager option"
  s_events :: "storage_event list"

definition getInternalKey :: "config \<Rightarrow> string \<Rightarrow> string" where
  "getInternalKey cfg k = namespace cfg @ '':'' @ k"

definition getSchemaKey :: "string \<Rightarrow> string" where
  "getSchemaKey k = takeWhile (\<lambda>c. c \<noteq> CHR '':'') k"

definition isStorageItem :: "jsval \<Rightarrow> bool" where
  "isStorageItem v =
     (truthy v \<and> typeof_object v \<and> has_prop ''id'' v \<and> has_prop ''key'' v
      \<and> has_prop ''value'' v \<and> has_prop ''metadata'' v)"

definition shouldCompress :: "prims \<Rightarrow> config \<Rightarrow> jsval \<Rightarrow> set_options option \<Rightarrow> bool" where
  "shouldCompress P cfg v options =
     (if \<not> compression_enabled cfg then False
      else if Option.bind options o_compress = Some False then False
      else if Option.bind options o_compress = Some True then True
      else estimateSize P v \<ge>
             (if compression_threshold cfg = 0 then 1024 else compression_threshold cfg))"

definition shouldEncrypt :: "config \<Rightarrow> set_options option \<Rightarrow> bool" where
  "shouldEncrypt cfg options =
     (if \<not> encryption_enabled cfg then False
      else if Option.bind options o_encrypt = Some False then False
      else encryption_enabled cfg \<or> Option.bind options o_encrypt = Some True)"

text \<open>The compression service as \<open>initializeServices\<close> constructs it: algorithm and
  level from the configuration, the service's own threshold at its default.\<close>

definition compression_service_of :: "config \<Rightarrow> compression_service" where
  "compression_service_of cfg =
     \<lparr>cs_algorithm = compression_algorithm cfg,
      cs_level = min 9 (max 1 (if compression_level cfg = 0 then 6 else compression_level cfg)),
      cs_threshold = 1024\<rparr>"

text \<open>\<open>validate\<close> of the SchemaValidator: a \<open>ZodError\<close> becomes a ValidationError, any
  other error is thrown on as it is. The parsed data is not used by \<open>set\<close>.\<close>

definition validate :: "jsval \<Rightarrow> schema \<Rightarrow> error + jsval" where
  "validate data sch =
     (case sch data of
        Parsed result \<Rightarrow> Inr result
      | ZodError \<Rightarrow> Inl ValidationError
      | Thrown e \<Rightarrow> Inl e)"

definition checkQuota :: "prims \<Rightarrow> config \<Rightarrow> jsval \<Rightarrow> storage \<Rightarrow> storage \<times> (error + unit)" where
  "checkQuota P cfg v s =
     (if \<not> quota_enforceLimit cfg then (s, Inr ())
      else
        let itemSize = estimateSize P v;
            currentSize = adapter_size P (s_adapter s);
            quota = quota_maxSize cfg * 1024 * 1024
        in if currentSize + itemSize > quota
           then (s, Inl (QuotaExceededError (currentSize + itemSize) quota))
           else if quota \<noteq> 0
                   \<and> (currentSize + itemSize) * 100
                       \<ge> (if quota_warnAt cfg = 0 then 80 else quota_warnAt cfg) * quota
           then (s\<lparr>s_events := s_events s @ [QuotaWarning]\<rparr>, Inr ())
           else (s, Inr ()))"

text \<open>Member access \<open>x.k\<close>: a TypeError on \<open>null\<close> and \<open>undefined\<close>.\<close>

definition js_member :: "jsval option \<Rightarrow> string \<Rightarrow> error + jsval option" where
  "js_member x k =
     (case x of
        None \<Rightarrow> Inl TypeError
      | Some JNull \<Rightarrow> Inl TypeError
      | Some v \<Rightarrow> Inr (js_prop v k))"

definition nullish :: "jsval option \<Rightarrow> bool" where
  "nullish x = (x = None \<or> x = Some JNull)"

definition version_prefix :: "string \<Rightarrow> string" where
  "version_prefix k = ''__version:'' @ k @ '':''"

definition cleanupVersions :: "config \<Rightarrow> string \<Rightarrow> backend \<Rightarrow> backend" where
  "cleanupVersions cfg k b =
     (let maxVersions = (if versioning_maxVersions cfg = 0 then 10 else versioning_maxVersions cfg);
          keyVersions = rev (sort (filter (prefix (version_prefix k)) (adapter_keys b)))
      in if length keyVersions > maxVersions
         then fold adapter_delete (drop maxVersions keyVersions) b
         else b)"

definition storeVersion :: "config \<Rightarrow> int \<Rightarrow> string \<Rightarrow> jsval \<Rightarrow> backend \<Rightarrow> backend" where
  "storeVersion cfg now k item b =
     (let versionKey =
            version_prefix k
              @ js_to_string_opt (Option.bind (js_prop item ''metadata'') (\<lambda>m. js_prop m ''version''));
          b1 = adapter_set now versionKey item None b
      in if versioning_autoCleanup cfg then cleanupVersions cfg k b1 else b1)"

definition deleteVersions :: "string \<Rightarrow> backend \<Rightarrow> backend" where
  "deleteVersions k b =
     fold adapter_delete (filter (prefix (version_prefix k)) (adapter_keys b)) b"

definition sync_enqueue :: "int \<Rightarrow> string \<Rightarrow> change_op \<Rightarrow> storage \<Rightarrow> storage" where
  "sync_enqueue now k op s =
     (case s_sync s of
        None \<Rightarrow> s
      | Some sm \<Rightarrow> s\<lparr>s_sync := Some (queueChange now k op sm)\<rparr>)"

text \<open>Emitting a change event: the event, then the listener the synchronization manager
  registered on start, which enqueues the change.\<close>

definition emit_change :: "int \<Rightarrow> string \<Rightarrow> change_op \<Rightarrow> jsval option \<Rightarrow> storage \<Rightarrow> storage" where
  "emit_change now k op oldValue s =
     sync_enqueue now k op
       (s\<lparr>s_events := s_events s
            @ [Change k (kind_of op) oldValue (case op of SetOp v \<Rightarrow> Some v | _ \<Rightarrow> None) now]\<rparr>)"

definition optional_value :: "jsval option \<Rightarrow> jsval option" where
  "optional_value currentItem =
     (if nullish currentItem then None else Option.bind currentItem (\<lambda>v. js_prop v ''value''))"

text \<open>The pieces of \<open>set\<close> that read the current envelope:
  \<open>currentItem ? currentItem.metadata.version + 1 : 1\<close> and
  \<open>currentItem?.metadata.created || now\<close>.\<close>

definition next_version :: "jsval option \<Rightarrow> error + jsval" where
  "next_version currentItem =
     (if truthy_opt currentItem
      then (case js_member currentItem ''metadata'' of
              Inl e \<Rightarrow> Inl e
            | Inr m \<Rightarrow>
                (case js_member m ''version'' of
                   Inl e \<Rightarrow> Inl e
                 | Inr ver \<Rightarrow> Inr (js_plus_one ver)))
      else Inr (JNum 1))"

definition created_or_now :: "int \<Rightarrow> jsval option \<Rightarrow> error + jsval" where
  "created_or_now now currentItem =
     (if nullish currentItem then Inr (JNum now)
      else (case js_member currentItem ''metadata'' of
              Inl e \<Rightarrow> Inl e
            | Inr m \<Rightarrow>
                (case js_member m ''created'' of
                   Inl e \<Rightarrow> Inl e
                 | Inr c \<Rightarrow> Inr (if truthy_opt c then the c else JNum now))))"

definition optional_field :: "string \<Rightarrow> jsval option \<Rightarrow> (string \<times> jsval) list" where
  "optional_field k x = (case x of None \<Rightarrow> [] | Some v \<Rightarrow> [(k, v)])"

definition make_item ::
  "prims \<Rightarrow> int \<Rightarrow> string \<Rightarrow> jsval \<Rightarrow> jsval \<Rightarrow> jsval \<Rightarrow> bool \<Rightarrow> bool \<Rightarrow> set_options option \<Rightarrow> jsval" where
  "make_item P now k version created processedValue compressed encrypted options =
     JObj [(''id'', JStr (k @ ''_'' @ js_to_string version @ ''_'' @ string_of_int now)),
           (''key'', JStr k),
           (''value'', processedValue),
           (''metadata'',
              JObj (spread
                ([(''created'', created), (''updated'', JNum now), (''version'', version),
                  (''size'', JNum (int (estimateSize P processedValue))),
                  (''compressed'', JBool compressed), (''encrypted'', JBool encrypted)]
                 @ optional_field ''tags'' (Option.bind options o_tags)
                 @ optional_field ''ttl'' (map_option JNum (Option.bind options o_ttl))
                 @ optional_field ''expiresAt''
                     (if truthy_ttl (Option.bind options o_ttl)
                      then Some (JNum (now + the (Option.bind options o_ttl))) else None))
                (case Option.bind options o_metadata of None \<Rightarrow> [] | Some m \<Rightarrow> m)))]"

definition set_body ::
  "prims \<Rightarrow> config \<Rightarrow> int \<Rightarrow> string \<Rightarrow> jsval \<Rightarrow> set_options option \<Rightarrow> storage \<Rightarrow> storage \<times> (error + unit)" where
  "set_body P cfg now k v options s =
     (case (case map_of (s_schemas s) (getSchemaKey k) of
              None \<Rightarrow> Inr v
            | Some sch \<Rightarrow> validate v sch) of
        Inl e \<Rightarrow> (s, Inl e)
      | Inr validated \<Rightarrow>
     (case checkQuota P cfg v s of
        (s1, Inl e) \<Rightarrow> (s1, Inl e)
      | (s1, Inr u) \<Rightarrow>
     (case adapter_get now (getInternalKey cfg k) (s_adapter s1) of
        (b2, currentItem) \<Rightarrow>
     (case next_version currentItem of
        Inl e \<Rightarrow> (s1\<lparr>s_adapter := b2\<rparr>, Inl e)
      | Inr version \<Rightarrow>
     (let s3 = s1\<lparr>s_adapter := b2,
                  s_versionCounter := AList.update k version (s_versionCounter s1)\<rparr>;
          compressed = shouldCompress P cfg v options;
          compressedValue = (if compressed then compress P (compression_service_of cfg) v else v);
          encrypted = shouldEncrypt cfg options;
          processedValue = (if encrypted then encrypt P compressedValue else compressedValue)
      in case created_or_now now currentItem of
           Inl e \<Rightarrow> (s3, Inl e)
         | Inr created \<Rightarrow>
             (let item = make_item P now k version created processedValue compressed encrypted options;
                  b4 = adapter_set now (getInternalKey cfg k) item (Option.bind options o_ttl)
                         (s_adapter s3);
                  b5 = (if versioning_enabled cfg \<and> truthy_opt currentItem
                        then storeVersion cfg now k (the currentItem) b4 else b4);
                  s6 = s3\<lparr>s_adapter := b5,
                          s_cache := map_option (cache_set P now k v (Option.bind options o_ttl))
                                       (s_cache s3)\<rparr>;
                  s7 = emit_change now k (SetOp v) (optional_value currentItem) s6
              in (sync_enqueue now k (SetOp v) s7, Inr ())))))))"

text \<open>The \<open>catch\<close> of every operation: the error event, and the error thrown on.\<close>

definition on_error :: "string \<Rightarrow> storage \<times> (error + 'a) \<Rightarrow> storage \<times> (error + 'a)" where
  "on_error code r =
     (case r of
        (s, Inl e) \<Rightarrow> (s\<lparr>s_events := s_events s @ [ErrorEvent code e]\<rparr>, Inl e)
      | (s, Inr x) \<Rightarrow> (s, Inr x))"

definition storage_set ::
  "prims \<Rightarrow> config \<Rightarrow> int \<Rightarrow> string \<Rightarrow> jsval \<Rightarrow> set_options option \<Rightarrow> storage \<Rightarrow> storage \<times> (error + unit)" where
  "storage_set P cfg now k v options s = on_error ''SET_ERROR'' (set_body P cfg now k v options s)"

definition get_body :: "prims \<Rightarrow> config \<Rightarrow> int \<Rightarrow> string \<Rightarrow> storage \<Rightarrow> storage \<times> (error + jsval)" where
  "get_body P cfg now k s =
     (case (case s_cache s of
              None \<Rightarrow> (s, None)
            | Some c \<Rightarrow> (case cache_get now k c of (c', r) \<Rightarrow> (s\<lparr>s_cache := Some c'\<rparr>, r))) of
        (s1, Some cached) \<Rightarrow> (s1, Inr cached)
      | (s1, None) \<Rightarrow>
     (case adapter_get now (getInternalKey cfg k) (s_adapter s1) of
        (b2, item) \<Rightarrow>
     (let s2 = s1\<lparr>s_adapter := b2\<rparr>
      in if \<not> truthy_opt item then (s2, Inr JNull)
         else if \<not> isStorageItem (the item) then (s2, Inr (the item))
         else
     (case js_member (js_prop (the item) ''metadata'') ''encrypted'' of
        Inl e \<Rightarrow> (s2, Inl e)
      | Inr enc \<Rightarrow>
     (case (if truthy_opt enc \<and> encryption_enabled cfg
            then map_sum id Some (decrypt P (js_prop (the item) ''value''))
            else Inr (js_prop (the item) ''value'')) of
        Inl e \<Rightarrow> (s2, Inl e)
      | Inr decrypted \<Rightarrow>
     (case (if truthy_opt (Option.bind (js_prop (the item) ''metadata'') (\<lambda>m. js_prop m ''compressed''))
               \<and> compression_enabled cfg
            then map_sum id Some (decompress P decrypted)
            else Inr decrypted) of
        Inl e \<Rightarrow> (s2, Inl e)
      | Inr decoded \<Rightarrow>
          (let result = (case decoded of None \<Rightarrow> JNull | Some x \<Rightarrow> x);
               ttl = js_number (Option.bind (js_prop (the item) ''metadata'') (\<lambda>m. js_prop m ''ttl''))
           in (s2\<lparr>s_cache := map_option (cache_set P now k result ttl) (s_cache s2)\<rparr>,
               Inr result))))))))"

definition storage_get :: "prims \<Rightarrow> config \<Rightarrow> int \<Rightarrow> string \<Rightarrow> storage \<Rightarrow> storage \<times> (error + jsval)" where
  "storage_get P cfg now k s = on_error ''GET_ERROR'' (get_body P cfg now k s)"

text \<open>\<open>delete\<close> and \<open>clear\<close>: no step of theirs throws on this backend.\<close>

definition storage_delete :: "config \<Rightarrow> int \<Rightarrow> string \<Rightarrow> storage \<Rightarrow> storage" where
  "storage_delete cfg now k s =
     (case adapter_get now (getInternalKey cfg k) (s_adapter s) of
        (b1, currentItem) \<Rightarrow>
          (let b2 = adapter_delete (getInternalKey cfg k) b1;
               c3 = map_option (\<lambda>c. fst (cache_delete k c)) (s_cache s);
               b4 = (if versioning_enabled cfg then deleteVersions k b2 else b2);
               s5 = emit_change now k DeleteOp (optional_value currentItem)
                      (s\<lparr>s_adapter := b4, s_cache := c3\<rparr>)
           in sync_enqueue now k DeleteOp s5))"

definition storage_clear :: "int \<Rightarrow> storage \<Rightarrow> storage" where
  "storage_clear now s =
     (let s1 = s\<lparr>s_adapter := [], s_cache := map_option cache_clear (s_cache s),
                 s_versionCounter := []\<rparr>;
          s2 = emit_change now ''*'' ClearOp None s1
      in sync_enqueue now ''*'' ClearOp s2)"

section \<open>The synchronization cycle (SyncManager)\<close>

text \<open>
  A provider does input and output; what its \<open>sync\<close> (the push) and its \<open>pull\<close>
  return or throw in a cycle is given from outside. The manager lives in the storage
  state (\<open>s_sync\<close>), since applying a remote change goes through the storage's own
  \<open>get\<close>, \<open>set\<close>, \<open>delete\<close> and \<open>clear\<close>, which enqueue into the manager again.
  The option \<open>skipSync\<close> that the manager passes is a field no storage operation reads.
\<close>

record provider =
  pv_name :: string
  pv_sync :: "sync_change list \<Rightarrow> error + sync_result"
  pv_pull :: "error + sync_change list"

definition pending_of :: "storage \<Rightarrow> (string \<times> sync_change) list" where
  "pending_of s = (case s_sync s of None \<Rightarrow> [] | Some sm \<Rightarrow> pendingChanges sm)"

definition is_syncing :: "storage \<Rightarrow> bool" where
  "is_syncing s = (case s_sync s of None \<Rightarrow> False | Some sm \<Rightarrow> syncing sm)"

definition apply_remote_change ::
  "prims \<Rightarrow> config \<Rightarrow> int \<Rightarrow> sync_change \<Rightarrow> storage \<times> sync_conflict list \<Rightarrow> storage \<times> sync_conflict list" where
  "apply_remote_change P cfg now change acc =
     (case acc of (s, conflicts) \<Rightarrow>
     (case storage_get P cfg now (sc_key change) s of
        (s1, Inl e) \<Rightarrow> (s1, conflicts)
      | (s1, Inr localValue) \<Rightarrow>
          (case sc_op change of
             SetOp remoteValue \<Rightarrow>
               if localValue \<noteq> JNull
               then (s1, conflicts @ [\<lparr>cf_key = sc_key change, cf_localValue = localValue,
                                       cf_remoteValue = remoteValue, cf_localTimestamp = now,
                                       cf_remoteTimestamp = sc_timestamp change,
                                       cf_resolution = None, cf_mergedValue = None\<rparr>])
               else (fst (storage_set P cfg now (sc_key change) remoteValue (Some no_options) s1),
                     conflicts)
           | DeleteOp \<Rightarrow> (storage_delete cfg now (sc_key change) s1, conflicts)
           | ClearOp \<Rightarrow> (storage_clear now s1, conflicts))))"

definition applyRemoteChanges ::
  "prims \<Rightarrow> config \<Rightarrow> int \<Rightarrow> sync_change list \<Rightarrow> storage \<Rightarrow> storage \<times> sync_conflict list" where
  "applyRemoteChanges P cfg now changes s = fold (apply_remote_change P cfg now) changes (s, [])"

definition resolve_conflict ::
  "prims \<Rightarrow> config \<Rightarrow> int \<Rightarrow> sync_conflict \<Rightarrow> storage \<times> sync_conflict list \<Rightarrow> storage \<times> sync_conflict list" where
  "resolve_conflict P cfg now conflict acc =
     (case acc of (s, done) \<Rightarrow>
     (case s_sync s of
        None \<Rightarrow> (s, done @ [conflict])
      | Some sm \<Rightarrow>
          (case sy_conflictResolution sm of
             KeepLocal \<Rightarrow> (s, done @ [conflict\<lparr>cf_resolution := Some ResolvedLocal\<rparr>])
           | TakeRemote \<Rightarrow>
               (case storage_set P cfg now (cf_key conflict) (cf_remoteValue conflict)
                       (Some no_options) s of
                  (s1, Inl e) \<Rightarrow> (s1, done @ [conflict])
                | (s1, Inr u) \<Rightarrow> (s1, done @ [conflict\<lparr>cf_resolution := Some ResolvedRemote\<rparr>]))
           | Merge \<Rightarrow>
               (let merged = mergeValues (cf_localValue conflict) (cf_remoteValue conflict)
                in case storage_set P cfg now (cf_key conflict) merged (Some no_options) s of
                     (s1, Inl e) \<Rightarrow> (s1, done @ [conflict])
                   | (s1, Inr u) \<Rightarrow>
                       (s1, done @ [conflict\<lparr>cf_resolution := Some ResolvedMerged,
                                              cf_mergedValue := Some merged\<rparr>]))
           | Manual \<Rightarrow>
               (s\<lparr>s_sync := Some (sm\<lparr>sy_emitted := sy_emitted sm @ [ConflictEvent conflict]\<rparr>)\<rparr>,
                done @ [conflict]))))"

definition resolveConflicts ::
  "prims \<Rightarrow> config \<Rightarrow> int \<Rightarrow> sync_conflict list \<Rightarrow> storage \<Rightarrow> storage \<times> sync_conflict list" where
  "resolveConflicts P cfg now conflicts s = fold (resolve_conflict P cfg now) conflicts (s, [])"

definition clear_pending :: "storage \<Rightarrow> storage" where
  "clear_pending s =
     (case s_sync s of None \<Rightarrow> s | Some sm \<Rightarrow> s\<lparr>s_sync := Some (sm\<lparr>pendingChanges := []\<rparr>)\<rparr>)"

definition syncWithProvider ::
  "prims \<Rightarrow> config \<Rightarrow> int \<Rightarrow> provider \<Rightarrow> storage \<Rightarrow> storage \<times> (error + sync_result)" where
  "syncWithProvider P cfg now pv s =
     (let changes = map snd (pending_of s)
      in case pv_sync pv changes of
           Inl e \<Rightarrow> (s, Inl e)
         | Inr pushResult \<Rightarrow>
             (case pv_pull pv of
                Inl e \<Rightarrow> (s, Inl e)
              | Inr remoteChanges \<Rightarrow>
                  (case applyRemoteChanges P cfg now remoteChanges s of
                     (s1, conflicts) \<Rightarrow>
                       ((if sr_success pushResult then clear_pending s1 else s1),
                        Inr \<lparr>sr_success = sr_success pushResult,
                             sr_synced = sr_synced pushResult + length remoteChanges,
                             sr_conflicts = sr_conflicts pushResult @ conflicts,
                             sr_errors = sr_errors pushResult\<rparr>))))"

definition sync_provider_step ::
  "prims \<Rightarrow> config \<Rightarrow> int \<Rightarrow> provider \<Rightarrow> storage \<times> sync_result list \<Rightarrow> storage \<times> sync_result list" where
  "sync_provider_step P cfg now pv acc =
     (case acc of (s, results) \<Rightarrow>
     (case syncWithProvider P cfg now pv s of
        (s1, Inr result) \<Rightarrow> (s1, results @ [result])
      | (s1, Inl e) \<Rightarrow>
          (s1, results @ [\<lparr>sr_success = False, sr_synced = 0, sr_conflicts = [],
                            sr_errors = [e]\<rparr>])))"

text \<open>The cycle of a call of \<open>sync()\<close> that passed the guard, up to the \<open>finally\<close>
  that clears the flag.\<close>

definition sync_cycle :: "prims \<Rightarrow> config \<Rightarrow> int \<Rightarrow> provider list \<Rightarrow> storage \<Rightarrow> storage" where
  "sync_cycle P cfg now providers s =
     (case fold (sync_provider_step P cfg now) providers (s, []) of
        (s1, results) \<Rightarrow>
          (let combined = combineResults results
           in case (if sr_conflicts combined \<noteq> []
                    then resolveConflicts P cfg now (sr_conflicts combined) s1
                    else (s1, sr_conflicts combined)) of
                (s2, conflicts) \<Rightarrow>
                  (case s_sync s2 of
                     None \<Rightarrow> s2
                   | Some sm \<Rightarrow>
                       s2\<lparr>s_sync :=
                            Some (sm\<lparr>lastSyncTime := Some now,
                                     sy_emitted := sy_emitted sm
                                        @ [SyncComplete (combined\<lparr>sr_conflicts := conflicts\<rparr>)],
                                     syncing := False\<rparr>)\<rparr>)))"

definition sync_call :: "storage \<Rightarrow> storage" where
  "sync_call s = (case s_sync s of None \<Rightarrow> s | Some sm \<Rightarrow> s\<lparr>s_sync := Some (sync_begin sm)\<rparr>)"

text \<open>A whole call of \<open>sync()\<close> with nothing else running in between.\<close>

definition sync :: "prims \<Rightarrow> config \<Rightarrow> int \<Rightarrow> provider list \<Rightarrow> storage \<Rightarrow> storage" where
  "sync P cfg now providers s =
     (case s_sync s of
        None \<Rightarrow> s
      | Some sm \<Rightarrow>
          if syncing sm \<or> \<not> sy_enabled sm then s
          else sync_cycle P cfg now providers (sync_call s))"

definition pending_keys :: "storage \<Rightarrow> string set" where
  "pending_keys s = set (map fst (pending_of s))"

section \<open>Notions the statements use\<close>

text \<open>The value \<open>set\<close> hands to the backend inside the envelope: the value itself,
  compressed and then encrypted as \<open>shouldCompress\<close> and \<open>shouldEncrypt\<close> decide.\<close>

definition processed_value :: "prims \<Rightarrow> config \<Rightarrow> jsval \<Rightarrow> set_options option \<Rightarrow> jsval" where
  "processed_value P cfg v options =
     (let compressedValue =
            (if shouldCompress P cfg v options then compress P (compression_service_of cfg) v
             else v)
      in if shouldEncrypt cfg options then encrypt P compressedValue else compressedValue)"

text \<open>A run of calls \<open>set(k, v, options)\<close> at given clock readings, one after the other
  with nothing in between; \<open>None\<close> when one of them rejects.\<close>

fun set_sequence ::
  "prims \<Rightarrow> config \<Rightarrow> string \<Rightarrow> (int \<times> jsval \<times> set_options option) list \<Rightarrow> storage \<Rightarrow> storage option" where
  "set_sequence P cfg k [] s = Some s"
| "set_sequence P cfg k ((now, v, options) # calls) s =
     (case storage_set P cfg now k v options s of
        (s', Inr u) \<Rightarrow> set_sequence P cfg k calls s'
      | (s', Inl e) \<Rightarrow> None)"

text \<open>The version in the metadata of the envelope persisted for a key.\<close>

definition stored_version :: "config \<Rightarrow> string \<Rightarrow> storage \<Rightarrow> jsval option" where
  "stored_version cfg k s =
     (case map_of (s_adapter s) (getInternalKey cfg k) of
        None \<Rightarrow> None
      | Some (item, e) \<Rightarrow> Option.bind (js_prop item ''metadata'') (\<lambda>m. js_prop m ''version''))"

text \<open>The backend holds, for the key, nothing and \<open>n = 0\<close>, or a truthy value without
  expiry whose metadata carry the version \<open>n > 0\<close>.\<close>

definition version_state :: "config \<Rightarrow> string \<Rightarrow> storage \<Rightarrow> nat \<Rightarrow> bool" where
  "version_state cfg k s n =
     (case map_of (s_adapter s) (getInternalKey cfg k) of
        None \<Rightarrow> n = 0
      | Some (item, e) \<Rightarrow>
          n > 0 \<and> e = None \<and> truthy item
          \<and> (\<exists>m. js_prop item ''metadata'' = Some m \<and> m \<noteq> JNull
                   \<and> js_prop m ''version'' = Some (JNum (int n))))"


section \<open>Calls of sync() over time\<close>

text \<open>
  The operations that can run while a synchronization cycle waits: another call of
  \<open>sync()\<close> (from the timer, from \<open>syncNow\<close>, from \<open>stop\<close>) and the storage
  operations, whose enqueueing calls \<open>sync()\<close> once ten changes are pending.
\<close>

inductive op_step :: "prims \<Rightarrow> config \<Rightarrow> storage \<Rightarrow> storage \<Rightarrow> bool" for P cfg where
  call_sync: "op_step P cfg s (sync_call s)"
| do_set: "op_step P cfg s (fst (storage_set P cfg now k v options s))"
| do_get: "op_step P cfg s (fst (storage_get P cfg now k s))"
| do_delete: "op_step P cfg s (storage_delete cfg now k s)"
| do_clear: "op_step P cfg s (storage_clear now s)"

text \<open>
  \<open>in_flight P cfg s n\<close>: the state \<open>s\<close> can be reached with \<open>n\<close> cycles begun and not
  yet ended. A cycle begins when an operation takes the flag from clear to set (a call of
  \<open>sync()\<close> that passes the guard); it ends when its body has run (\<open>sync_cycle\<close>).
\<close>

inductive in_flight :: "prims \<Rightarrow> config \<Rightarrow> storage \<Rightarrow> nat \<Rightarrow> bool" for P cfg where
  idle: "\<not> is_syncing s \<Longrightarrow> in_flight P cfg s 0"
| step: "in_flight P cfg s n \<Longrightarrow> op_step P cfg s s' \<Longrightarrow>
         in_flight P cfg s' (if \<not> is_syncing s \<and> is_syncing s' then Suc n else n)"
| finish: "in_flight P cfg s (Suc n) \<Longrightarrow>
           in_flight P cfg (sync_cycle P cfg now providers s) n"

section \<open>Concrete instances\<close>

text \<open>
  A small instance of the primitives, for evaluating the model on concrete inputs: JSON
  text of the non-negative integers, byte reversal as compressor and as cipher, and a
  backend that accounts the length of key and text.
\<close>

definition digit_of :: "char \<Rightarrow> nat option" where
  "digit_of c = map_of (zip ''0123456789'' [0 ..< 10]) c"

definition ex_parse :: "string \<Rightarrow> jsval option" where
  "ex_parse s =
     (if s \<noteq> [] \<and> list_all (\<lambda>c. digit_of c \<noteq> None) s
      then Some (JNum (int (fold (\<lambda>c n. 10 * n + the (digit_of c)) s 0)))
      else None)"

definition ex_seal :: "string \<Rightarrow> jsval" where
  "ex_seal s = JObj [(''algorithm'', JStr ''AES-GCM''), (''data'', JStr (rev s)), (''nonce'', JStr ''n'')]"

definition ex_unseal :: "jsval \<Rightarrow> string option" where
  "ex_unseal e = (case js_prop e ''data'' of Some (JStr d) \<Rightarrow> Some (rev d) | _ \<Rightarrow> None)"

definition ex_prims :: prims where
  "ex_prims =
     \<lparr>json_stringify = js_to_string,
      json_parse = ex_parse,
      compress_bytes = (\<lambda>alg level s. rev s),
      decompress_bytes = (\<lambda>alg s. Some (rev s)),
      crypto_seal = ex_seal,
      crypto_unseal = ex_unseal,
      backend_bytes = (\<lambda>k v. length k + length (js_to_string v))\<rparr>"

definition ex_config :: config where
  "ex_config =
     \<lparr>namespace = ''default'', encryption_enabled = False, compression_enabled = False,
      compression_algorithm = Gzip, compression_threshold = 1024, compression_level = 6,
      versioning_enabled = False, versioning_maxVersions = 10, versioning_autoCleanup = True,
      quota_maxSize = 100, quota_warnAt = 80, quota_enforceLimit = True\<rparr>"

definition ex_sync :: sync_manager where
  "ex_sync =
     \<lparr>sy_enabled = True, sy_conflictResolution = Merge, sy_runtimeId = ''ext'',
      pendingChanges = [], syncing = False, lastSyncTime = None, sy_emitted = []\<rparr>"

definition ex_storage :: storage where
  "ex_storage =
     \<lparr>s_adapter = [], s_cache = None, s_schemas = [], s_versionCounter = [],
      s_sync = None, s_events = []\<rparr>"

definition users_schema :: schema where
  "users_schema v = (case v of JObj kvs \<Rightarrow> Parsed v | _ \<Rightarrow> ZodError)"


definition ex_change :: sync_change where
  "ex_change = \<lparr>sc_key = ''a'', sc_op = SetOp (JNum 1), sc_timestamp = 10, sc_source = ''ext_10''\<rparr>"

definition ex_pending_storage :: storage where
  "ex_pending_storage = ex_storage\<lparr>s_sync := Some (ex_sync\<lparr>pendingChanges := [(''a'', ex_change)], syncing := True\<rparr>)\<rparr>"

text \<open>Two providers: both report a successful push of every change; the pull of the
  first throws, the pull of the second returns no remote change.\<close>

definition ex_push_ok :: "sync_change list \<Rightarrow> error + sync_result" where
  "ex_push_ok changes =
     Inr \<lparr>sr_success = True, sr_synced = length changes, sr_conflicts = [], sr_errors = []\<rparr>"

definition ex_provider_pull_throws :: provider where
  "ex_provider_pull_throws =
     \<lparr>pv_name = ''custom'', pv_sync = ex_push_ok, pv_pull = Inl (OtherError ''offline'')\<rparr>"

definition ex_provider :: provider where
  "ex_provider = \<lparr>pv_name = ''custom'', pv_sync = ex_push_ok, pv_pull = Inr []\<rparr>"




section \<open>Validation and quota: rejection before any effect\<close>

text \<open>
  C8. When a schema is registered for the key's prefix (the part before the first colon)
  and the value does not satisfy it, \<open>set\<close> rejects with a ValidationError and the state
  is the one before the call but for the error event of the \<open>catch\<close>: no backend write,
  no cache update, no version record, no change event, nothing enqueued for
  synchronization.
\<close>

theorem set_validation_rejects:
  assumes "map_of (s_schemas s) (getSchemaKey k) = Some sch"
    and "sch v = ZodError"
  shows "storage_set P cfg now k v options s =
           (s\<lparr>s_events := s_events s @ [ErrorEvent ''SET_ERROR'' ValidationError]\<rparr>,
            Inl ValidationError)"
  using assms by (simp add: storage_set_def set_body_def on_error_def validate_def)

theorem set_validation_rejects_witness:
  "map_of (s_schemas (ex_storage\<lparr>s_schemas := [(''users'', users_schema)]\<rparr>))
      (getSchemaKey ''users:123'') = Some users_schema
   \<and> users_schema (JNum 5) = ZodError
   \<and> storage_set ex_prims ex_config 1000 ''users:123'' (JNum 5) None
        (ex_storage\<lparr>s_schemas := [(''users'', users_schema)]\<rparr>)
      = (ex_storage\<lparr>s_schemas := [(''users'', users_schema)],
                    s_events := [ErrorEvent ''SET_ERROR'' ValidationError]\<rparr>,
         Inl ValidationError)"
proof -
  have h1: "map_of (s_schemas (ex_storage\<lparr>s_schemas := [(''users'', users_schema)]\<rparr>))
              (getSchemaKey ''users:123'') = Some users_schema"
    by (simp add: getSchemaKey_def ex_storage_def)
  have h2: "users_schema (JNum 5) = ZodError"
    by (simp add: users_schema_def)
  show ?thesis
    using h1 h2 set_validation_rejects [OF h1 h2, of ex_prims ex_config 1000 None]
    by (simp add: ex_storage_def)
qed

text \<open>
  C3, as the code has it. With quota enforcement on and the value past validation (no
  schema for its prefix, or one that accepts it), a \<open>set\<close> whose estimated item size
  added to the backend's current size exceeds the quota in bytes rejects with a
  QuotaExceededError that carries that sum and the quota. The backend, the cache, the
  version counters and the pending synchronization changes are those before the call; the
  only trace is the error event.
\<close>

theorem set_quota_exceeded_rejects:
  assumes "quota_enforceLimit cfg"
    and "case map_of (s_schemas s) (getSchemaKey k) of
           None \<Rightarrow> True | Some sch \<Rightarrow> (\<exists>r. sch v = Parsed r)"
    and "adapter_size P (s_adapter s) + estimateSize P v > quota_maxSize cfg * 1024 * 1024"
  shows "storage_set P cfg now k v options s =
           (s\<lparr>s_events := s_events s @
                 [ErrorEvent ''SET_ERROR''
                    (QuotaExceededError (adapter_size P (s_adapter s) + estimateSize P v)
                       (quota_maxSize cfg * 1024 * 1024))]\<rparr>,
            Inl (QuotaExceededError (adapter_size P (s_adapter s) + estimateSize P v)
                   (quota_maxSize cfg * 1024 * 1024)))"
  using assms
  by (auto simp add: storage_set_def set_body_def on_error_def validate_def checkQuota_def
        Let_def split: option.splits)

theorem set_quota_exceeded_rejects_witness:
  "quota_enforceLimit ex_config
   \<and> adapter_size (ex_prims\<lparr>backend_bytes := (\<lambda>k v. 200000000)\<rparr>)
        (s_adapter (ex_storage\<lparr>s_adapter := [(''default:a'', JNum 1, None)]\<rparr>))
       + estimateSize (ex_prims\<lparr>backend_bytes := (\<lambda>k v. 200000000)\<rparr>) (JNum 7)
      > quota_maxSize ex_config * 1024 * 1024
   \<and> storage_set (ex_prims\<lparr>backend_bytes := (\<lambda>k v. 200000000)\<rparr>) ex_config 1000 ''b''
        (JNum 7) None (ex_storage\<lparr>s_adapter := [(''default:a'', JNum 1, None)]\<rparr>)
      = (ex_storage\<lparr>s_adapter := [(''default:a'', JNum 1, None)],
                    s_events := [ErrorEvent ''SET_ERROR'' (QuotaExceededError 200000001 104857600)]\<rparr>,
         Inl (QuotaExceededError 200000001 104857600))"
proof -
  let ?P = "ex_prims\<lparr>backend_bytes := (\<lambda>k v. 200000000)\<rparr>"
  let ?s = "ex_storage\<lparr>s_adapter := [(''default:a'', JNum 1, None)]\<rparr>"
  have sz: "estimateSize ?P (JNum 7) = 1"
    by (simp add: estimateSize_def ex_prims_def string_of_int_def string_of_nat.simps)
  have h1: "quota_enforceLimit ex_config"
    by (simp add: ex_config_def)
  have h2: "case map_of (s_schemas ?s) (getSchemaKey ''b'') of
              None \<Rightarrow> True | Some sch \<Rightarrow> (\<exists>r. sch (JNum 7) = Parsed r)"
    by (simp add: ex_storage_def)
  have h3: "adapter_size ?P (s_adapter ?s) + estimateSize ?P (JNum 7)
              > quota_maxSize ex_config * 1024 * 1024"
    unfolding sz by (simp add: adapter_size_def ex_storage_def ex_config_def ex_prims_def)
  have e: "adapter_size ?P (s_adapter ?s) + estimateSize ?P (JNum 7) = 200000001"
    unfolding sz by (simp add: adapter_size_def ex_storage_def ex_prims_def)
  have q: "quota_maxSize ex_config * 1024 * 1024 = 104857600"
    by (simp add: ex_config_def)
  show ?thesis
    using h1 h3 set_quota_exceeded_rejects [OF h1 h2 h3, of 1000 None]
    unfolding e q by (simp add: ex_storage_def)
qed

text \<open>
  C3 as stated fails in two ways. \<open>checkQuota\<close> returns at once when
  \<open>quota.enforceLimit\<close> is off: the write that takes the backend past the quota then
  succeeds and is stored. And validation runs before the quota check: a value that the
  schema of its prefix refuses is rejected with a ValidationError, whatever its size.
\<close>

theorem set_quota_counterexample:
  "adapter_size (ex_prims\<lparr>backend_bytes := (\<lambda>k v. 200000000)\<rparr>)
        (s_adapter (ex_storage\<lparr>s_adapter := [(''default:a'', JNum 1, None)]\<rparr>))
       + estimateSize (ex_prims\<lparr>backend_bytes := (\<lambda>k v. 200000000)\<rparr>) (JNum 7)
      > quota_maxSize ex_config * 1024 * 1024
   \<and> snd (storage_set (ex_prims\<lparr>backend_bytes := (\<lambda>k v. 200000000)\<rparr>)
             (ex_config\<lparr>quota_enforceLimit := False\<rparr>) 1000 ''b'' (JNum 7) None
             (ex_storage\<lparr>s_adapter := [(''default:a'', JNum 1, None)]\<rparr>)) = Inr ()
   \<and> adapter_keys (s_adapter (fst (storage_set (ex_prims\<lparr>backend_bytes := (\<lambda>k v. 200000000)\<rparr>)
             (ex_config\<lparr>quota_enforceLimit := False\<rparr>) 1000 ''b'' (JNum 7) None
             (ex_storage\<lparr>s_adapter := [(''default:a'', JNum 1, None)]\<rparr>))))
        = [''default:a'', ''default:b'']
   \<and> snd (storage_set (ex_prims\<lparr>backend_bytes := (\<lambda>k v. 200000000)\<rparr>) ex_config 1000
             ''users:1'' (JNum 7) None
             (ex_storage\<lparr>s_adapter := [(''default:a'', JNum 1, None)],
                          s_schemas := [(''users'', users_schema)]\<rparr>)) = Inl ValidationError"
  by (simp add: storage_set_def set_body_def on_error_def checkQuota_def Let_def ex_storage_def
        ex_config_def ex_prims_def adapter_get_def adapter_set_def getInternalKey_def
        getSchemaKey_def next_version_def truthy_opt_def created_or_now_def nullish_def
        shouldCompress_def shouldEncrypt_def adapter_size_def estimateSize_def string_of_int_def
        string_of_nat.simps adapter_keys_def emit_change_def sync_enqueue_def validate_def
        users_schema_def)

section \<open>Merging conflicting values\<close>

lemma mergeValues_objects:
  "mergeValues (JObj ls) (JObj rs) = JObj (spread (spread [] rs) ls)"
  by (simp add: mergeValues_def)

lemma mergeValues_arrays_as_objects:
  "mergeValues (JArr ls) (JArr rs)
     = JObj (spread (spread [] (own_props (JArr rs))) (own_props (JArr ls)))"
  by (simp add: mergeValues_def)

lemma mergeValues_objects_example:
  "mergeValues (JObj [(''a'', JNum 1)]) (JObj [(''b'', JNum 2)])
     = JObj [(''b'', JNum 2), (''a'', JNum 1)]"
  by (simp add: mergeValues_def spread_def)

text \<open>
  C4. The claim holds of two objects (the two lemmas above: the remote's properties, then
  the local ones over them). It fails of two arrays: an array is an object to
  \<open>typeof\<close>, so the first branch of \<open>mergeValues\<close> takes them and the branch that
  builds the union without duplicates is never reached. Local \<open>[1,2]\<close> against remote
  \<open>[2,3]\<close> merges to the object \<open>{0: 1, 1: 2}\<close>, not to \<open>[1,2,3]\<close>.
\<close>

theorem mergeValues_arrays_not_union:
  "mergeValues (JArr [JNum 1, JNum 2]) (JArr [JNum 2, JNum 3])
     = JObj [(''0'', JNum 1), (''1'', JNum 2)]"
  by (simp add: mergeValues_def spread_def string_of_nat.simps upt_rec)

theorem mergeValues_arrays_not_union_witness:
  "mergeValues (JArr [JNum 1, JNum 2]) (JArr [JNum 2, JNum 3]) \<noteq> JArr [JNum 1, JNum 2, JNum 3]
   \<and> \<not> isArray (mergeValues (JArr [JNum 1, JNum 2]) (JArr [JNum 2, JNum 3]))"
  using mergeValues_arrays_not_union by simp

section \<open>The re-entrancy guard of sync()\<close>

lemma queueChange_syncing: "syncing sm \<Longrightarrow> syncing (queueChange now k op sm)"
  by (simp add: queueChange_def sync_begin_def Let_def)

lemma s_sync_emit_change: "s_sync (emit_change now k op old s) = map_option (queueChange now k op) (s_sync s)"
  by (simp add: emit_change_def sync_enqueue_def split: option.splits)

lemma s_sync_sync_enqueue: "s_sync (sync_enqueue now k op s) = map_option (queueChange now k op) (s_sync s)"
  by (simp add: sync_enqueue_def split: option.splits)

lemma s_sync_checkQuota: "s_sync (fst (checkQuota P cfg v s)) = s_sync s"
  by (simp add: checkQuota_def Let_def)

lemma s_sync_set_body:
  "s_sync (fst (set_body P cfg now k v options s)) =
     (case snd (set_body P cfg now k v options s) of
        Inl e \<Rightarrow> s_sync s
      | Inr u \<Rightarrow> map_option (\<lambda>sm. queueChange now k (SetOp v) (queueChange now k (SetOp v) sm)) (s_sync s))"
  by (auto simp: set_body_def Let_def s_sync_emit_change s_sync_sync_enqueue checkQuota_def option.map_comp comp_def
      split: sum.splits prod.splits option.splits if_splits)

lemma on_error_fst_sync: "s_sync (fst (on_error code r)) = s_sync (fst r)"
  by (auto simp: on_error_def split: prod.splits sum.splits)

lemma on_error_snd: "snd (on_error code r) = snd r"
  by (auto simp: on_error_def split: prod.splits sum.splits)

lemma s_sync_storage_set:
  "s_sync (fst (storage_set P cfg now k v options s)) =
     (case snd (storage_set P cfg now k v options s) of
        Inl e \<Rightarrow> s_sync s
      | Inr u \<Rightarrow> map_option (\<lambda>sm. queueChange now k (SetOp v) (queueChange now k (SetOp v) sm)) (s_sync s))"
  by (simp add: storage_set_def on_error_fst_sync on_error_snd s_sync_set_body)

lemma s_sync_get_body: "s_sync (fst (get_body P cfg now k s)) = s_sync s"
  by (auto simp: get_body_def Let_def split: sum.splits prod.splits option.splits if_splits)

lemma s_sync_storage_get: "s_sync (fst (storage_get P cfg now k s)) = s_sync s"
  by (simp add: storage_get_def on_error_fst_sync s_sync_get_body)

lemma s_sync_storage_delete:
  "s_sync (storage_delete cfg now k s) = map_option (\<lambda>sm. queueChange now k DeleteOp (queueChange now k DeleteOp sm)) (s_sync s)"
  by (auto simp: storage_delete_def Let_def s_sync_emit_change s_sync_sync_enqueue option.map_comp comp_def split: prod.splits)

lemma s_sync_storage_clear:
  "s_sync (storage_clear now s) = map_option (\<lambda>sm. queueChange now ''*'' ClearOp (queueChange now ''*'' ClearOp sm)) (s_sync s)"
  by (auto simp: storage_clear_def Let_def s_sync_emit_change s_sync_sync_enqueue option.map_comp comp_def split: prod.splits)

lemma op_step_syncing: "op_step P cfg s s' \<Longrightarrow> is_syncing s \<Longrightarrow> is_syncing s'"
proof (induction rule: op_step.induct)
  case (call_sync s)
  then show ?case by (auto simp: is_syncing_def sync_call_def sync_begin_def split: option.splits)
next
  case (do_set s now k v options)
  then show ?case
    by (auto simp: is_syncing_def s_sync_storage_set queueChange_syncing split: option.splits sum.splits)
next
  case (do_get s now k)
  then show ?case by (simp add: is_syncing_def s_sync_storage_get)
next
  case (do_delete s now k)
  then show ?case by (auto simp: is_syncing_def s_sync_storage_delete queueChange_syncing split: option.splits)
next
  case (do_clear s now)
  then show ?case by (auto simp: is_syncing_def s_sync_storage_clear queueChange_syncing split: option.splits)
qed

lemma sync_cycle_not_syncing: "\<not> is_syncing (sync_cycle P cfg now providers s)"
  by (auto simp: sync_cycle_def is_syncing_def Let_def split: prod.splits option.splits)

lemma in_flight_inv: "in_flight P cfg s n \<Longrightarrow> n = (if is_syncing s then 1 else 0)"
proof (induction rule: in_flight.induct)
  case (idle s)
  then show ?case by simp
next
  case (step s n s')
  then show ?case using op_step_syncing [of P cfg s s'] by auto
next
  case (finish s n now providers)
  then show ?case by (auto simp: sync_cycle_not_syncing split: if_splits)
qed

text \<open>
  C6. A call of \<open>sync()\<close> while the flag is set changes nothing: neither the whole call
  (\<open>sync\<close>) nor its first part (\<open>sync_call\<close>) touches the state, so no second push and
  pull run. Hence, over any sequence of calls of \<open>sync()\<close>, storage operations and
  cycle ends, at most one cycle is in flight.
\<close>

theorem sync_reentrant_noop:
  "(is_syncing s \<longrightarrow> sync P cfg now providers s = s \<and> sync_call s = s)
   \<and> (in_flight P cfg s n \<longrightarrow> n \<le> 1)"
  using in_flight_inv [of P cfg s n]
  by (auto simp: is_syncing_def sync_def sync_call_def sync_begin_def split: option.splits)

theorem sync_reentrant_noop_witness:
  "is_syncing (sync_call (ex_storage\<lparr>s_sync := Some ex_sync\<rparr>))
   \<and> sync ex_prims ex_config 5 [] (sync_call (ex_storage\<lparr>s_sync := Some ex_sync\<rparr>))
       = sync_call (ex_storage\<lparr>s_sync := Some ex_sync\<rparr>)
   \<and> in_flight ex_prims ex_config (sync_call (sync_call (ex_storage\<lparr>s_sync := Some ex_sync\<rparr>))) 1
   \<and> (1::nat) \<le> 1"
proof -
  let ?s0 = "ex_storage\<lparr>s_sync := Some ex_sync\<rparr>"
  have n0: "\<not> is_syncing ?s0"
    by (simp add: is_syncing_def ex_storage_def ex_sync_def)
  have y1: "is_syncing (sync_call ?s0)"
    by (simp add: is_syncing_def sync_call_def sync_begin_def ex_storage_def ex_sync_def)
  have y2: "is_syncing (sync_call (sync_call ?s0))"
    by (simp add: is_syncing_def sync_call_def sync_begin_def ex_storage_def ex_sync_def)
  have f0: "in_flight ex_prims ex_config ?s0 0"
    using n0 by (rule in_flight.idle)
  have f1: "in_flight ex_prims ex_config (sync_call ?s0) (Suc 0)"
    using in_flight.step [OF f0 op_step.call_sync] n0 y1 by simp
  have f2: "in_flight ex_prims ex_config (sync_call (sync_call ?s0)) 1"
    using in_flight.step [OF f1 op_step.call_sync] y1 y2 by simp
  show ?thesis
    using y1 f2 sync_reentrant_noop [of "sync_call ?s0" ex_prims ex_config 5 "[]" 1]
    by simp
qed

section \<open>Pending changes in a cycle with one provider\<close>

lemma keys_update_subset: "set (map fst al) \<subseteq> set (map fst (AList.update k v al))"
  unfolding update_keys by auto

lemma pending_keys_queueChange:
  "set (map fst (pendingChanges sm)) \<subseteq> set (map fst (pendingChanges (queueChange now k op sm)))"
  using keys_update_subset [of "pendingChanges sm" k]
  by (simp add: queueChange_def sync_begin_def Let_def del: set_map)

lemma pending_keys_map_queue:
  assumes "s_sync s' = map_option (\<lambda>sm. queueChange now k op (queueChange now k op sm)) (s_sync s)"
  shows "pending_keys s \<subseteq> pending_keys s'"
proof (cases "s_sync s")
  case None
  then show ?thesis by (simp add: pending_keys_def pending_of_def)
next
  case (Some sm)
  have "set (map fst (pendingChanges sm)) \<subseteq> set (map fst (pendingChanges (queueChange now k op (queueChange now k op sm))))"
    using pending_keys_queueChange [of sm now k op] pending_keys_queueChange [of "queueChange now k op sm" now k op]
    by blast
  then show ?thesis using Some assms by (simp add: pending_keys_def pending_of_def)
qed

lemma pending_keys_same: "s_sync s' = s_sync s \<Longrightarrow> pending_keys s' = pending_keys s"
  by (simp add: pending_keys_def pending_of_def)

lemma pending_keys_set: "pending_keys s \<subseteq> pending_keys (fst (storage_set P cfg now k v options s))"
proof (cases "snd (storage_set P cfg now k v options s)")
  case (Inl e)
  then have "s_sync (fst (storage_set P cfg now k v options s)) = s_sync s"
    by (simp add: s_sync_storage_set)
  then show ?thesis using pending_keys_same by blast
next
  case (Inr u)
  then have "s_sync (fst (storage_set P cfg now k v options s))
      = map_option (\<lambda>sm. queueChange now k (SetOp v) (queueChange now k (SetOp v) sm)) (s_sync s)"
    by (simp add: s_sync_storage_set)
  then show ?thesis by (rule pending_keys_map_queue)
qed

lemma pending_keys_apply: "pending_keys (fst acc) \<subseteq> pending_keys (fst (apply_remote_change P cfg now change acc))"
proof -
  obtain s conflicts where acc: "acc = (s, conflicts)" by (cases acc)
  obtain s1 r where g: "storage_get P cfg now (sc_key change) s = (s1, r)"
    by (cases "storage_get P cfg now (sc_key change) s")
  have "s_sync s1 = s_sync s"
    using s_sync_storage_get [of P cfg now "sc_key change" s] g by simp
  then have e: "pending_keys s1 = pending_keys s" by (rule pending_keys_same)
  have d: "pending_keys s1 \<subseteq> pending_keys (storage_delete cfg now (sc_key change) s1)"
    by (rule pending_keys_map_queue [OF s_sync_storage_delete])
  have c: "pending_keys s1 \<subseteq> pending_keys (storage_clear now s1)"
    by (rule pending_keys_map_queue [OF s_sync_storage_clear])
  show ?thesis
  proof (cases r)
    case (Inl e)
    then show ?thesis using e by (simp add: acc g apply_remote_change_def)
  next
    case (Inr localValue)
    show ?thesis
    proof (cases "sc_op change")
      case (SetOp remoteValue)
      then show ?thesis
        using e pending_keys_set [of s1 P cfg now "sc_key change" remoteValue "Some no_options"]
        by (simp add: acc g Inr apply_remote_change_def)
    next
      case DeleteOp
      then show ?thesis using e d by (simp add: acc g Inr apply_remote_change_def)
    next
      case ClearOp
      then show ?thesis using e c by (simp add: acc g Inr apply_remote_change_def)
    qed
  qed
qed

lemma pending_keys_fold: "pending_keys (fst acc) \<subseteq> pending_keys (fst (fold (apply_remote_change P cfg now) changes acc))"
proof (induction changes arbitrary: acc)
  case Nil
  then show ?case by simp
next
  case (Cons c cs)
  have "pending_keys (fst acc) \<subseteq> pending_keys (fst (apply_remote_change P cfg now c acc))"
    by (rule pending_keys_apply)
  also have "\<dots> \<subseteq> pending_keys (fst (fold (apply_remote_change P cfg now) cs (apply_remote_change P cfg now c acc)))"
    by (rule Cons)
  finally show ?case by simp
qed

lemma pending_clear_pending: "pending_of (clear_pending s) = []"
  by (simp add: clear_pending_def pending_of_def split: option.splits)

text \<open>
  C7, as the code has it. In \<open>syncWithProvider\<close> the pending map is cleared after the
  push, the pull and the application of the remote changes, and only when the push
  reported success. So: when the push or the pull throws, the state is left as it was,
  pending changes included; when both return and the push reported success, the pending
  map is empty afterwards; when both return and the push reported failure, nothing is
  cleared: every key that was pending is still pending, and with no remote change to apply
  the state is untouched.
\<close>

theorem syncWithProvider_pending:
  "(case pv_sync pv (map snd (pending_of s)) of
      Inl e \<Rightarrow> syncWithProvider P cfg now pv s = (s, Inl e)
    | Inr push \<Rightarrow>
       (case pv_pull pv of
          Inl e \<Rightarrow> syncWithProvider P cfg now pv s = (s, Inl e)
        | Inr remote \<Rightarrow>
            (if sr_success push
             then pending_of (fst (syncWithProvider P cfg now pv s)) = []
             else pending_keys s \<subseteq> pending_keys (fst (syncWithProvider P cfg now pv s))
                  \<and> (remote = [] \<longrightarrow> fst (syncWithProvider P cfg now pv s) = s))))"
proof (cases "pv_sync pv (map snd (pending_of s))")
  case (Inl e)
  then show ?thesis by (simp add: syncWithProvider_def)
next
  case push: (Inr push)
  show ?thesis
  proof (cases "pv_pull pv")
    case (Inl e)
    then show ?thesis using push by (simp add: syncWithProvider_def)
  next
    case (Inr remote)
    obtain s1 conflicts where a: "applyRemoteChanges P cfg now remote s = (s1, conflicts)"
      by (cases "applyRemoteChanges P cfg now remote s")
    have m: "pending_keys s \<subseteq> pending_keys s1"
      using pending_keys_fold [of "(s, [])" P cfg now remote] a by (simp add: applyRemoteChanges_def)
    have n: "remote = [] \<Longrightarrow> s1 = s" using a by (simp add: applyRemoteChanges_def)
    have r: "fst (syncWithProvider P cfg now pv s) = (if sr_success push then clear_pending s1 else s1)"
      using push Inr a by (simp add: syncWithProvider_def)
    show ?thesis
      using m n unfolding push Inr r
      by (simp add: pending_clear_pending)
  qed
qed

theorem syncWithProvider_pending_witness:
  "pv_sync ex_provider (map snd (pending_of ex_pending_storage))
     = Inr \<lparr>sr_success = True, sr_synced = 1, sr_conflicts = [], sr_errors = []\<rparr>
   \<and> pv_pull ex_provider = Inr []
   \<and> pending_of ex_pending_storage = [(''a'', ex_change)]
   \<and> pending_of (fst (syncWithProvider ex_prims ex_config 20 ex_provider ex_pending_storage)) = []"
  using syncWithProvider_pending [where pv = ex_provider and s = ex_pending_storage
      and P = ex_prims and cfg = ex_config and now = 20]
  by (simp add: ex_provider_def ex_push_ok_def ex_pending_storage_def ex_storage_def ex_sync_def
        pending_of_def)

text \<open>
  C7 as stated fails: the push reports success, the pull throws, and the pending change
  is still queued after the cycle with that provider.
\<close>

theorem syncWithProvider_pending_counterexample:
  "pv_sync ex_provider_pull_throws (map snd (pending_of ex_pending_storage))
     = Inr \<lparr>sr_success = True, sr_synced = 1, sr_conflicts = [], sr_errors = []\<rparr>
   \<and> pending_of (fst (syncWithProvider ex_prims ex_config 20 ex_provider_pull_throws
                        ex_pending_storage))
       = [(''a'', ex_change)]"
  by (simp add: syncWithProvider_def ex_provider_pull_throws_def ex_push_ok_def
        ex_pending_storage_def ex_storage_def ex_sync_def pending_of_def)

section \<open>Eviction from a full frequency-strategy cache\<close>












section \<open>Deleting a key\<close>




lemma map_of_absent: "k \<notin> fst ` set al \<Longrightarrow> map_of al k = None"
  by (simp add: map_of_eq_None_iff)

lemma cache_get_absent:
  assumes "k \<notin> set (cache_keys c)"
  shows "snd (cache_get now k c) = None"
proof (cases "cc_strategy (c_config c)")
  case Lru
  show ?thesis
  proof (cases "lruCache c")
    case None
    then show ?thesis using Lru by (simp add: cache_get_def Let_def)
  next
    case (Some items)
    then have "cache_keys c = map fst items" using Lru by (simp add: cache_keys_def)
    then have "map_of items k = None" using assms by (simp add: map_of_eq_None_iff)
    then show ?thesis using Lru Some by (simp add: cache_get_def lru_get_def Let_def)
  qed
next
  case Lfu
  show ?thesis
  proof (cases "quickCache c")
    case None
    then show ?thesis using Lfu by (simp add: cache_get_def Let_def)
  next
    case (Some items)
    then have "cache_keys c = map fst items" using Lfu by (simp add: cache_keys_def)
    then have "map_of items k = None" using assms by (simp add: map_of_eq_None_iff)
    then show ?thesis using Lfu Some by (simp add: cache_get_def Let_def)
  qed
next
  case Fifo
  show ?thesis
  proof (cases "fifoCache c")
    case None
    then show ?thesis using Fifo by (simp add: cache_get_def Let_def)
  next
    case (Some items)
    then have "cache_keys c = map fst items" using Fifo by (simp add: cache_keys_def)
    then have "map_of items k = None" using assms by (simp add: map_of_eq_None_iff)
    then show ?thesis using Fifo Some by (simp add: cache_get_def Let_def)
  qed
next
  case Ttl
  then show ?thesis by (simp add: cache_get_def Let_def)
qed

lemma map_of_fold_delete:
  "map_of (fold adapter_delete ks b) key = (if key \<in> set ks then None else map_of b key)"
  by (induction ks arbitrary: b) (auto simp: adapter_delete_def delete_conv)




lemma s_adapter_sync_enqueue [simp]: "s_adapter (sync_enqueue now k op s) = s_adapter s"
  by (simp add: sync_enqueue_def split: option.splits)
lemma s_cache_sync_enqueue [simp]: "s_cache (sync_enqueue now k op s) = s_cache s"
  by (simp add: sync_enqueue_def split: option.splits)
lemma s_adapter_emit_change [simp]: "s_adapter (emit_change now k op old s) = s_adapter s"
  by (simp add: emit_change_def)
lemma s_cache_emit_change [simp]: "s_cache (emit_change now k op old s) = s_cache s"
  by (simp add: emit_change_def)









section \<open>Reading a value stored without an envelope\<close>

text \<open>
  What \<open>get\<close> does on a value that is not an envelope, when the cache does not hold the
  key and the backend entry has not expired: a truthy value is returned as it is stored,
  the backend is untouched, nothing is decoded and the cache is not populated (it only
  counts the miss).
\<close>

lemma get_legacy_truthy:
  assumes a: "map_of (s_adapter s) (getInternalKey cfg k) = Some (v, e)"
    and ne: "\<not> expired_at now e"
    and t: "truthy v"
    and l: "\<not> isStorageItem v"
    and c: "\<forall>c. s_cache s = Some c \<longrightarrow> k \<notin> set (cache_keys c)"
  shows "snd (storage_get P cfg now k s) = Inr v
       \<and> s_adapter (fst (storage_get P cfg now k s)) = s_adapter s
       \<and> s_events (fst (storage_get P cfg now k s)) = s_events s
       \<and> (case s_cache s of None \<Rightarrow> s_cache (fst (storage_get P cfg now k s)) = None
          | Some ch \<Rightarrow> s_cache (fst (storage_get P cfg now k s)) = Some (fst (cache_get now k ch)))"
proof (cases "s_cache s")
  case None
  then show ?thesis using a ne t l
    by (simp add: storage_get_def get_body_def on_error_def adapter_get_def truthy_opt_def Let_def)
next
  case (Some ch)
  obtain c' r where g: "cache_get now k ch = (c', r)" by (cases "cache_get now k ch")
  have "r = None" using cache_get_absent [of k ch now] c Some g by simp
  then show ?thesis using a ne t l Some g
    by (simp add: storage_get_def get_body_def on_error_def adapter_get_def truthy_opt_def Let_def)
qed


text \<open>
  C10. The claim fails for the values JavaScript reads as false. \<open>get\<close> tests the value
  the backend returned with \<open>if (!item) return null\<close> before it looks at its shape, so a
  directly stored \<open>0\<close> (as well as \<open>false\<close> and the empty string) is reported as
  absent: with the number \<open>0\<close> stored under the internal key of \<open>counter\<close>,
  \<open>get('counter')\<close> returns \<open>null\<close>.
\<close>

theorem get_legacy_zero_reads_null:
  "storage_get ex_prims ex_config 1000 ''counter''
     (ex_storage\<lparr>s_adapter := [(''default:counter'', JNum 0, None)]\<rparr>)
   = (ex_storage\<lparr>s_adapter := [(''default:counter'', JNum 0, None)]\<rparr>, Inr JNull)"
  by (simp add: storage_get_def get_body_def on_error_def adapter_get_def truthy_opt_def Let_def
        ex_storage_def ex_config_def getInternalKey_def expired_at_def)

theorem get_legacy_zero_reads_null_witness:
  "\<not> isStorageItem (JNum 0)
   \<and> snd (storage_get ex_prims ex_config 1000 ''counter''
            (ex_storage\<lparr>s_adapter := [(''default:counter'', JNum 0, None)]\<rparr>)) \<noteq> Inr (JNum 0)"
  using get_legacy_zero_reads_null by (simp add: isStorageItem_def)

section \<open>What a successful set persists\<close>

lemma map_of_spread: "map_of (spread a b) = map_of a ++ map_of (rev b)"
proof (induction b arbitrary: a)
  case Nil
  then show ?case by (simp add: spread_def)
next
  case (Cons x b)
  obtain k v where x: "x = (k, v)" by (cases x)
  have "map_of (spread a (x # b)) = map_of (spread (AList.update k v a) b)"
    by (simp add: spread_def x)
  also have "\<dots> = map_of (AList.update k v a) ++ map_of (rev b)" by (rule Cons)
  also have "\<dots> = map_of a ++ map_of (rev (x # b))"
    by (simp add: x update_conv' map_add_upd_left map_add_assoc [symmetric] fun_eq_iff map_add_def split: option.splits)
  finally show ?case .
qed

lemma map_of_spread_absent:
  "k \<notin> fst ` set b \<Longrightarrow> map_of (spread a b) k = map_of a k"
  by (simp add: map_of_spread map_add_def map_of_eq_None_iff split: option.splits)
     (metis (no_types) map_of_eq_None_iff option.distinct(1) set_rev)

lemma s_adapter_checkQuota: "s_adapter (fst (checkQuota P cfg v s)) = s_adapter s"
  by (simp add: checkQuota_def Let_def)
lemma s_cache_checkQuota: "s_cache (fst (checkQuota P cfg v s)) = s_cache s"
  by (simp add: checkQuota_def Let_def)

lemma set_body_success:
  assumes "set_body P cfg now k v options s = (s1, Inr u)"
  shows "\<exists>version created.
           next_version (snd (adapter_get now (getInternalKey cfg k) (s_adapter s))) = Inr version
         \<and> s_adapter s1 =
             (let b4 = adapter_set now (getInternalKey cfg k)
                         (make_item P now k version created (processed_value P cfg v options)
                            (shouldCompress P cfg v options) (shouldEncrypt cfg options) options)
                         (Option.bind options o_ttl)
                         (fst (adapter_get now (getInternalKey cfg k) (s_adapter s)))
              in if versioning_enabled cfg \<and> truthy_opt (snd (adapter_get now (getInternalKey cfg k) (s_adapter s)))
                 then storeVersion cfg now k (the (snd (adapter_get now (getInternalKey cfg k) (s_adapter s)))) b4
                 else b4)
         \<and> s_cache s1 = map_option (cache_set P now k v (Option.bind options o_ttl)) (s_cache s)"
proof -
  obtain s0 r0 where q: "checkQuota P cfg v s = (s0, r0)" by (cases "checkQuota P cfg v s")
  have a0: "s_adapter s0 = s_adapter s" using s_adapter_checkQuota [of P cfg v s] q by simp
  have c0: "s_cache s0 = s_cache s" using s_cache_checkQuota [of P cfg v s] q by simp
  obtain b2 cur where g: "adapter_get now (getInternalKey cfg k) (s_adapter s) = (b2, cur)"
    by (cases "adapter_get now (getInternalKey cfg k) (s_adapter s)")
  show ?thesis
    using assms q a0 c0 g
    by (auto simp: set_body_def Let_def processed_value_def
        split: sum.splits option.splits if_splits)
qed


lemma prefix_keys_cleanup:
  "set (drop n (rev (sort (filter p ks)))) \<subseteq> {x. p x}"
proof -
  have "set (drop n (rev (sort (filter p ks)))) \<subseteq> set (rev (sort (filter p ks)))"
    by (rule set_drop_subset)
  then show ?thesis by auto
qed

lemma cleanupVersions_other:
  assumes "\<not> prefix (version_prefix k) key"
  shows "map_of (cleanupVersions cfg k b) key = map_of b key"
proof -
  have "key \<notin> set (drop n (rev (sort (filter (prefix (version_prefix k)) ks))))" for n ks
    using prefix_keys_cleanup [of n "prefix (version_prefix k)" ks] assms by blast
  then show ?thesis by (simp add: cleanupVersions_def Let_def map_of_fold_delete)
qed

lemma storeVersion_other:
  assumes "\<not> prefix (version_prefix k) key"
  shows "map_of (storeVersion cfg now k item b) key = map_of b key"
proof -
  have ne: "key \<noteq> version_prefix k @ suffix" for suffix
    using assms by (metis prefixI)
  show ?thesis
    by (simp add: storeVersion_def Let_def cleanupVersions_other [OF assms] adapter_set_def update_conv' ne)
qed

lemma make_item_props:
  "js_prop (make_item P now k version created pv compressed encrypted options) ''value'' = Some pv"
  "\<exists>kvs. js_prop (make_item P now k version created pv compressed encrypted options) ''metadata'' = Some (JObj kvs)
     \<and> (\<forall>key. key \<notin> fst ` set (case Option.bind options o_metadata of None \<Rightarrow> [] | Some m \<Rightarrow> m) \<longrightarrow>
          map_of kvs key = map_of ([(''created'', created), (''updated'', JNum now), (''version'', version),
                  (''size'', JNum (int (estimateSize P pv))),
                  (''compressed'', JBool compressed), (''encrypted'', JBool encrypted)]
                 @ optional_field ''tags'' (Option.bind options o_tags)
                 @ optional_field ''ttl'' (map_option JNum (Option.bind options o_ttl))
                 @ optional_field ''expiresAt''
                     (if truthy_ttl (Option.bind options o_ttl)
                      then Some (JNum (now + the (Option.bind options o_ttl))) else None)) key)"
  "truthy (make_item P now k version created pv compressed encrypted options)"
  "isStorageItem (make_item P now k version created pv compressed encrypted options)"
  by (simp_all add: make_item_def js_prop_def isStorageItem_def has_prop_def map_of_spread_absent)

lemma base_lookup:
  "map_of ([(''created'', created), (''updated'', JNum now), (''version'', version),
                  (''size'', sz), (''compressed'', JBool compressed), (''encrypted'', JBool encrypted)]
                 @ optional_field ''tags'' t
                 @ optional_field ''ttl'' tt
                 @ optional_field ''expiresAt'' ex) ''version'' = Some version"
  "map_of ([(''created'', created), (''updated'', JNum now), (''version'', version),
                  (''size'', sz), (''compressed'', JBool compressed), (''encrypted'', JBool encrypted)]
                 @ optional_field ''tags'' t
                 @ optional_field ''ttl'' tt
                 @ optional_field ''expiresAt'' ex) ''compressed'' = Some (JBool compressed)"
  "map_of ([(''created'', created), (''updated'', JNum now), (''version'', version),
                  (''size'', sz), (''compressed'', JBool compressed), (''encrypted'', JBool encrypted)]
                 @ optional_field ''tags'' t
                 @ optional_field ''ttl'' tt
                 @ optional_field ''expiresAt'' ex) ''encrypted'' = Some (JBool encrypted)"
  by simp_all


lemma storage_set_success:
  "storage_set P cfg now k v options s = (s1, Inr u) \<Longrightarrow> set_body P cfg now k v options s = (s1, Inr u)"
  by (cases "set_body P cfg now k v options s")
     (auto simp: storage_set_def on_error_def split: sum.splits)

lemma set_stored:
  assumes succ: "storage_set P cfg now k v options s = (s1, Inr u)"
    and path: "versioning_enabled cfg \<longrightarrow> \<not> prefix (version_prefix k) (getInternalKey cfg k)"
  shows "\<exists>version created.
           next_version (snd (adapter_get now (getInternalKey cfg k) (s_adapter s))) = Inr version
         \<and> map_of (s_adapter s1) (getInternalKey cfg k) =
             Some (make_item P now k version created (processed_value P cfg v options)
                     (shouldCompress P cfg v options) (shouldEncrypt cfg options) options,
                   ttl_expiry now (Option.bind options o_ttl))
         \<and> s_cache s1 = map_option (cache_set P now k v (Option.bind options o_ttl)) (s_cache s)"
proof -
  obtain version created where
    nv: "next_version (snd (adapter_get now (getInternalKey cfg k) (s_adapter s))) = Inr version"
    and ad: "s_adapter s1 =
             (let b4 = adapter_set now (getInternalKey cfg k)
                         (make_item P now k version created (processed_value P cfg v options)
                            (shouldCompress P cfg v options) (shouldEncrypt cfg options) options)
                         (Option.bind options o_ttl)
                         (fst (adapter_get now (getInternalKey cfg k) (s_adapter s)))
              in if versioning_enabled cfg \<and> truthy_opt (snd (adapter_get now (getInternalKey cfg k) (s_adapter s)))
                 then storeVersion cfg now k (the (snd (adapter_get now (getInternalKey cfg k) (s_adapter s)))) b4
                 else b4)"
    and ca: "s_cache s1 = map_option (cache_set P now k v (Option.bind options o_ttl)) (s_cache s)"
    using set_body_success [OF storage_set_success [OF succ]] by blast
  have "map_of (s_adapter s1) (getInternalKey cfg k) =
             Some (make_item P now k version created (processed_value P cfg v options)
                     (shouldCompress P cfg v options) (shouldEncrypt cfg options) options,
                   ttl_expiry now (Option.bind options o_ttl))"
    using path unfolding ad
    by (simp add: Let_def storeVersion_other adapter_set_def update_conv')
  then show ?thesis using nv ca by blast
qed

lemma version_step:
  assumes succ: "storage_set P cfg now k v options s = (s1, Inr u)"
    and path: "versioning_enabled cfg \<longrightarrow> \<not> prefix (version_prefix k) (getInternalKey cfg k)"
    and ttl: "\<not> truthy_ttl (Option.bind options o_ttl)"
    and meta: "\<forall>m. Option.bind options o_metadata = Some m \<longrightarrow> ''version'' \<notin> fst ` set m"
    and inv: "version_state cfg k s n"
  shows "version_state cfg k s1 (Suc n)"
proof -
  let ?ik = "getInternalKey cfg k"
  obtain version created where
    nv: "next_version (snd (adapter_get now ?ik (s_adapter s))) = Inr version"
    and st: "map_of (s_adapter s1) ?ik =
             Some (make_item P now k version created (processed_value P cfg v options)
                     (shouldCompress P cfg v options) (shouldEncrypt cfg options) options,
                   ttl_expiry now (Option.bind options o_ttl))"
    using set_stored [OF succ path] by blast
  have ver: "version = JNum (int (Suc n))"
  proof (cases "map_of (s_adapter s) ?ik")
    case None
    then have "n = 0" using inv by (simp add: version_state_def)
    moreover have "snd (adapter_get now ?ik (s_adapter s)) = None"
      using None by (simp add: adapter_get_def)
    ultimately show ?thesis using nv by (simp add: next_version_def truthy_opt_def)
  next
    case (Some r)
    obtain item e where r: "r = (item, e)" by (cases r)
    obtain m where i: "n > 0" "e = None" "truthy item" "js_prop item ''metadata'' = Some m" "m \<noteq> JNull"
      "js_prop m ''version'' = Some (JNum (int n))"
      using inv Some r by (auto simp: version_state_def)
    have "snd (adapter_get now ?ik (s_adapter s)) = Some item"
      using Some r i by (simp add: adapter_get_def expired_at_def)
    moreover have "item \<noteq> JNull" using i by auto
    ultimately have "next_version (snd (adapter_get now ?ik (s_adapter s))) = Inr (JNum (int n + 1))"
      using i by (cases item; cases m) (simp_all add: next_version_def truthy_opt_def js_member_def)
    then show ?thesis using nv by simp
  qed
  obtain kvs where md: "js_prop (make_item P now k version created (processed_value P cfg v options)
                     (shouldCompress P cfg v options) (shouldEncrypt cfg options) options) ''metadata'' = Some (JObj kvs)"
    and lk: "\<forall>key. key \<notin> fst ` set (case Option.bind options o_metadata of None \<Rightarrow> [] | Some m \<Rightarrow> m) \<longrightarrow>
          map_of kvs key = map_of ([(''created'', created), (''updated'', JNum now), (''version'', version),
                  (''size'', JNum (int (estimateSize P (processed_value P cfg v options)))),
                  (''compressed'', JBool (shouldCompress P cfg v options)), (''encrypted'', JBool (shouldEncrypt cfg options))]
                 @ optional_field ''tags'' (Option.bind options o_tags)
                 @ optional_field ''ttl'' (map_option JNum (Option.bind options o_ttl))
                 @ optional_field ''expiresAt''
                     (if truthy_ttl (Option.bind options o_ttl)
                      then Some (JNum (now + the (Option.bind options o_ttl))) else None)) key"
    using make_item_props(2) by blast
  have "''version'' \<notin> fst ` set (case Option.bind options o_metadata of None \<Rightarrow> [] | Some m \<Rightarrow> m)"
    using meta by (cases "Option.bind options o_metadata") auto
  then have "map_of kvs ''version'' = Some version"
    using lk base_lookup(1) by metis
  then have v2: "js_prop (JObj kvs) ''version'' = Some (JNum (int (Suc n)))"
    using ver by (simp add: js_prop_def)
  have e: "ttl_expiry now (Option.bind options o_ttl) = None"
    using ttl by (auto simp: ttl_expiry_def truthy_ttl_def split: option.splits)
  show ?thesis
    using st md v2 e make_item_props(3)
    by (simp add: version_state_def)
qed

lemma version_sequence:
  assumes "set_sequence P cfg k calls s = Some s'"
    and "versioning_enabled cfg \<longrightarrow> \<not> prefix (version_prefix k) (getInternalKey cfg k)"
    and "\<forall>(now, v, options) \<in> set calls.
           \<not> truthy_ttl (Option.bind options o_ttl)
         \<and> (\<forall>m. Option.bind options o_metadata = Some m \<longrightarrow> ''version'' \<notin> fst ` set m)"
    and "version_state cfg k s n"
  shows "version_state cfg k s' (n + length calls)"
  using assms
proof (induction calls arbitrary: s n)
  case Nil
  then show ?case by simp
next
  case (Cons c calls)
  obtain now v options where c: "c = (now, v, options)" by (cases c)
  obtain s1 r where ss: "storage_set P cfg now k v options s = (s1, r)"
    by (cases "storage_set P cfg now k v options s")
  obtain u where r: "r = Inr u" and rest: "set_sequence P cfg k calls s1 = Some s'"
    using Cons.prems(1) c ss by (cases r) auto
  have st: "version_state cfg k s1 (Suc n)"
    using version_step [of P cfg now k v options s s1 u n] ss r Cons.prems c by auto
  have "version_state cfg k s' (Suc n + length calls)"
    using Cons.IH [OF rest Cons.prems(2) _ st] Cons.prems(3) by auto
  then show ?case by simp
qed

text \<open>
  C2. Starting from a backend with no envelope for \<open>k\<close>, after \<open>N \<ge> 1\<close> successful
  calls \<open>set(k, v)\<close>, one after the other with no other write in between, the version
  in the metadata of the persisted envelope is \<open>N\<close>: the first write stores version 1
  and each further write one more than the version it finds. The calls may carry options;
  those that would end the count are excluded: a time to live (an expired envelope is
  dropped and the count starts again) and an own \<open>version\<close> among the metadata of the
  options (the spread of \<open>options.metadata\<close> comes last). A plain \<open>set(k, v)\<close> has
  neither. With versioning on, the internal key of \<open>k\<close> is not itself a version key
  of \<open>k\<close>.
\<close>

theorem version_counts_sets:
  assumes "map_of (s_adapter s) (getInternalKey cfg k) = None"
    and "calls \<noteq> []"
    and "set_sequence P cfg k calls s = Some s'"
    and "versioning_enabled cfg \<longrightarrow> \<not> prefix (version_prefix k) (getInternalKey cfg k)"
    and "\<forall>(now, v, options) \<in> set calls.
           \<not> truthy_ttl (Option.bind options o_ttl)
         \<and> (\<forall>m. Option.bind options o_metadata = Some m \<longrightarrow> ''version'' \<notin> fst ` set m)"
  shows "stored_version cfg k s' = Some (JNum (int (length calls)))"
proof -
  have "version_state cfg k s 0" using assms(1) by (simp add: version_state_def)
  from version_sequence [OF assms(3) assms(4) assms(5) this]
  have "version_state cfg k s' (length calls)" by simp
  then show ?thesis using assms(2)
    by (auto simp: version_state_def stored_version_def split: option.splits)
qed

theorem version_counts_sets_witness:
  "set_sequence ex_prims (ex_config\<lparr>versioning_enabled := True\<rparr>) ''a''
       [(10, JNum 1, None), (20, JNum 2, None), (30, JNum 3, None)] ex_storage \<noteq> None
   \<and> stored_version (ex_config\<lparr>versioning_enabled := True\<rparr>) ''a''
       (the (set_sequence ex_prims (ex_config\<lparr>versioning_enabled := True\<rparr>) ''a''
               [(10, JNum 1, None), (20, JNum 2, None), (30, JNum 3, None)] ex_storage))
       = Some (JNum 3)"
proof -
  let ?P = ex_prims
  let ?cfg = "ex_config\<lparr>versioning_enabled := True\<rparr>"
  let ?calls = "[(10, JNum 1, None), (20, JNum 2, None), (30, JNum 3, None)] :: (int \<times> jsval \<times> set_options option) list"
  have ok: "set_sequence ?P ?cfg ''a'' ?calls ex_storage \<noteq> None"
    by (simp add: storage_set_def set_body_def on_error_def checkQuota_def Let_def ex_storage_def
        ex_config_def ex_prims_def adapter_get_def adapter_set_def getInternalKey_def
        getSchemaKey_def next_version_def truthy_opt_def created_or_now_def nullish_def
        shouldCompress_def shouldEncrypt_def adapter_size_def estimateSize_def string_of_int_def
        string_of_nat.simps adapter_keys_def emit_change_def sync_enqueue_def validate_def
        storeVersion_def cleanupVersions_def version_prefix_def make_item_def js_member_def
        js_prop_def optional_field_def optional_value_def spread_def expired_at_def ttl_expiry_def js_to_string_opt_def
        truthy_ttl_def)
  then obtain s' where seq: "set_sequence ?P ?cfg ''a'' ?calls ex_storage = Some s'" by blast
  have h1: "map_of (s_adapter ex_storage) (getInternalKey ?cfg ''a'') = None"
    by (simp add: ex_storage_def)
  have h2: "?calls \<noteq> []" by simp
  have h4: "versioning_enabled ?cfg \<longrightarrow> \<not> prefix (version_prefix ''a'') (getInternalKey ?cfg ''a'')"
    by (simp add: ex_config_def version_prefix_def getInternalKey_def)
  have h5: "\<forall>(now, v, options) \<in> set ?calls. \<not> truthy_ttl (Option.bind options o_ttl)
              \<and> (\<forall>m. Option.bind options o_metadata = Some m \<longrightarrow> ''version'' \<notin> fst ` set m)"
    by (simp add: truthy_ttl_def)
  show ?thesis
    using ok version_counts_sets [OF h1 h2 seq h4 h5] seq by simp
qed

section \<open>Reading back what was set\<close>





















end
